theory Spec2Isabelle
  imports Main
begin

section \<open>Time-of-day strings\<close>

text \<open>
  Times of day travel through the program as strings of the shape \<open>HH:MM\<close>. The code reads
  them with \<^verbatim>\<open>time.split(':').map(Number)\<close> and writes them with
  \<^verbatim>\<open>n.toString().padStart(2, '0')\<close>. The option \<open>None\<close> stands for JavaScript's
  \<^verbatim>\<open>NaN\<close>: every comparison with it is false.
\<close>

definition digits :: string where
  "digits = ''0123456789''"

definition isDigit :: "char \<Rightarrow> bool" where
  "isDigit c = (c \<in> set digits)"

text \<open>The value of a digit is its place among the ten digits.\<close>

definition digitVal :: "char \<Rightarrow> int" where
  "digitVal c = int (length (takeWhile (\<lambda>d. d \<noteq> c) digits))"

text \<open>
  \<^verbatim>\<open>Number(s)\<close> on a string: the empty string is 0, a string of decimal digits is its
  value. Every other string is read as \<^verbatim>\<open>NaN\<close> here (signs, blanks, exponents and hexadecimal
  literals, which \<^verbatim>\<open>Number\<close> also accepts, never occur in a time of day).
\<close>

definition Number_str :: "string \<Rightarrow> int option" where
  "Number_str s =
     (if list_all isDigit s then Some (foldl (\<lambda>acc c. acc * 10 + digitVal c) 0 s) else None)"

text \<open>\<^verbatim>\<open>s.split(':')\<close>: the empty string splits into one empty piece.\<close>

fun splitColon :: "string \<Rightarrow> string list" where
  "splitColon [] = [[]]"
| "splitColon (c # cs) =
     (if c = CHR '':'' then [] # splitColon cs
      else (case splitColon cs of
              w # ws \<Rightarrow> (c # w) # ws
            | [] \<Rightarrow> [[c]]))"

text \<open>
  \<^verbatim>\<open>const [hours, minutes] = time.split(':').map(Number); hours * 60 + minutes\<close>.
  A missing second piece is \<^verbatim>\<open>undefined\<close>, so the sum is \<^verbatim>\<open>NaN\<close>.
\<close>

definition parseTime :: "string \<Rightarrow> int option" where
  "parseTime t =
     (case splitColon t of
        h # m # _ \<Rightarrow>
          (case (Number_str h, Number_str m) of
             (Some hh, Some mm) \<Rightarrow> Some (hh * 60 + mm)
           | _ \<Rightarrow> None)
      | _ \<Rightarrow> None)"

definition digitChar :: "nat \<Rightarrow> char" where
  "digitChar n = digits ! (n mod 10)"

text \<open>\<^verbatim>\<open>n.toString()\<close> for a natural number.\<close>

fun toString :: "nat \<Rightarrow> string" where
  "toString n = (if n < 10 then [digitChar n] else toString (n div 10) @ [digitChar (n mod 10)])"

declare toString.simps [simp del]

text \<open>\<^verbatim>\<open>n.toString().padStart(2, '0')\<close>.\<close>

definition padStart2 :: "nat \<Rightarrow> string" where
  "padStart2 n = (if n < 10 then CHR ''0'' # toString n else toString n)"

text \<open>
  \<^verbatim>\<open>`${Math.floor(m / 60).toString().padStart(2, '0')}:${(m % 60).toString().padStart(2, '0')}`\<close>
  for minutes \<open>m \<ge> 0\<close>.
\<close>

definition formatMinutes :: "int \<Rightarrow> string" where
  "formatMinutes m = padStart2 (nat (m div 60)) @ '':'' @ padStart2 (nat (m mod 60))"

text \<open>The schema's pattern for \<open>time\<close>: \<^verbatim>\<open>/^([01]\d|2[0-3]):([0-5]\d)$/\<close>.\<close>

definition wfTime :: "string \<Rightarrow> bool" where
  "wfTime t =
     (case t of
        [a, b, c, d, e] \<Rightarrow>
          ((a \<in> set ''01'' \<and> isDigit b) \<or> (a = CHR ''2'' \<and> b \<in> set ''0123''))
          \<and> c = CHR '':'' \<and> d \<in> set ''012345'' \<and> isDigit e
      | _ \<Rightarrow> False)"

definition minutesOf :: "string \<Rightarrow> int" where
  "minutesOf t = (case parseTime t of Some m \<Rightarrow> m | None \<Rightarrow> 0)"

section \<open>Dates\<close>

text \<open>
  A \<^verbatim>\<open>Date\<close> is its number of milliseconds since the epoch. The server's local time zone
  is taken to be UTC, so that local midnight is a multiple of a day.
\<close>

type_synonym jsDate = int

definition msPerMinute :: int where
  "msPerMinute = 60000"

definition msPerDay :: int where
  "msPerDay = 86400000"

definition startOfDay :: "jsDate \<Rightarrow> jsDate" where
  "startOfDay d = d - d mod msPerDay"

definition endOfDay :: "jsDate \<Rightarrow> jsDate" where
  "endOfDay d = startOfDay d + msPerDay - 1"

text \<open>
  \<^verbatim>\<open>d.setHours(h, m)\<close> keeps the seconds and milliseconds of \<open>d\<close>; only
  \<open>hm = h * 60 + m\<close> matters. \<^verbatim>\<open>d.setHours(h, m, 0, 0)\<close> clears them.
\<close>

definition setHours :: "jsDate \<Rightarrow> int \<Rightarrow> jsDate" where
  "setHours d hm = startOfDay d + hm * msPerMinute + d mod msPerMinute"

definition setHours00 :: "jsDate \<Rightarrow> int \<Rightarrow> jsDate" where
  "setHours00 d hm = startOfDay d + hm * msPerMinute"

definition addMinutes :: "jsDate \<Rightarrow> int \<Rightarrow> jsDate" where
  "addMinutes d n = d + n * msPerMinute"

definition addDays :: "jsDate \<Rightarrow> int \<Rightarrow> jsDate" where
  "addDays d n = d + n * msPerDay"

definition sameCalendarDay :: "jsDate \<Rightarrow> jsDate \<Rightarrow> bool" where
  "sameCalendarDay a b = (a div msPerDay = b div msPerDay)"

section \<open>Appointments\<close>

datatype status = Pending | Confirmed | Completed | Cancelled | NeedsRescheduling

record appointment =
  appId :: string
  user :: string
  services :: "string list"
  date :: jsDate
  time :: string
  totalDuration :: int
  status :: status
  notes' :: string
  cancellationReason :: "string option"
  cancelledAt :: "jsDate option"
  reminderSent :: bool
  reminderSentAt :: "jsDate option"
  createdAt :: jsDate
  updatedAt :: "jsDate option"
  version :: int

section \<open>Conflict detection\<close>

text \<open>
  The query \<^verbatim>\<open>{date: {$gte: dateStart, $lte: dateEnd}, status: {$ne: 'cancelled'}}\<close>,
  used by both conflict checks and by the relocation search.
\<close>

definition findActiveOnDay :: "appointment list \<Rightarrow> jsDate \<Rightarrow> appointment list" where
  "findActiveOnDay appts d =
     filter (\<lambda>a. startOfDay d \<le> date a \<and> date a \<le> endOfDay d \<and> status a \<noteq> Cancelled) appts"

text \<open>The three-way test both conflict checks apply to one stored appointment.\<close>

definition overlapTest :: "int option \<Rightarrow> int \<Rightarrow> int option \<Rightarrow> int \<Rightarrow> bool" where
  "overlapTest start duration appStart appDuration =
     (case (start, appStart) of
        (Some startMinutes, Some appStartMinutes) \<Rightarrow>
          (let endMinutes = startMinutes + duration;
               appEndMinutes = appStartMinutes + appDuration
           in (startMinutes \<ge> appStartMinutes \<and> startMinutes < appEndMinutes)
              \<or> (endMinutes > appStartMinutes \<and> endMinutes \<le> appEndMinutes)
              \<or> (startMinutes \<le> appStartMinutes \<and> endMinutes \<ge> appEndMinutes))
      | _ \<Rightarrow> False)"

fun conflictLoop :: "int option \<Rightarrow> int \<Rightarrow> appointment list \<Rightarrow> bool" where
  "conflictLoop start duration [] = False"
| "conflictLoop start duration (a # as) =
     (if overlapTest start duration (parseTime (time a)) (totalDuration a) then True
      else conflictLoop start duration as)"

text \<open>
  \<open>checkTimeConflict\<close> of the appointment controller; \<open>existingAppointmentId\<close> is optional
  and ignored when empty.
\<close>

definition checkTimeConflict ::
  "appointment list \<Rightarrow> jsDate \<Rightarrow> string \<Rightarrow> int \<Rightarrow> string option \<Rightarrow> bool" where
  "checkTimeConflict appts d t duration existingAppointmentId =
     (let found = findActiveOnDay appts d;
          appointments =
            (case existingAppointmentId of
               Some i \<Rightarrow> if i \<noteq> [] then filter (\<lambda>a. appId a \<noteq> i) found else found
             | None \<Rightarrow> found)
      in conflictLoop (parseTime t) duration appointments)"

record availability =
  available :: bool
  conflictExists :: bool

text \<open>\<open>appointmentService.verifyAppointmentAvailability\<close>.\<close>

definition verifyAppointmentAvailability ::
  "appointment list \<Rightarrow> jsDate \<Rightarrow> string \<Rightarrow> int \<Rightarrow> availability" where
  "verifyAppointmentAvailability appts d t duration =
     (if conflictLoop (parseTime t) duration (findActiveOnDay appts d)
      then \<lparr>available = False, conflictExists = True\<rparr>
      else \<lparr>available = True, conflictExists = False\<rparr>)"

definition notExcluded :: "string option \<Rightarrow> appointment \<Rightarrow> bool" where
  "notExcluded existingAppointmentId a =
     (case existingAppointmentId of
        Some i \<Rightarrow> i = [] \<or> appId a \<noteq> i
      | None \<Rightarrow> True)"

definition intervalsOverlap :: "string \<Rightarrow> int \<Rightarrow> appointment \<Rightarrow> bool" where
  "intervalsOverlap t duration a =
     (minutesOf t < minutesOf (time a) + totalDuration a
      \<and> minutesOf t + duration > minutesOf (time a))"

section \<open>The business calendar\<close>

record dailySchedule =
  closed :: bool
  openingAM :: "string option"
  closingAM :: "string option"
  openingPM :: "string option"
  closingPM :: "string option"

record specialDay =
  specialDate :: jsDate
  specialSchedule :: dailySchedule

record regularHours =
  lunes :: dailySchedule
  martes :: dailySchedule
  miercoles :: dailySchedule
  jueves :: dailySchedule
  viernes :: dailySchedule
  sabado :: dailySchedule
  domingo :: dailySchedule

record schedule =
  regularHours :: regularHours
  specialDays :: "specialDay list"

text \<open>
  \<^verbatim>\<open>schedule.regularHours[dayName]\<close>: the object has the seven Spanish keys and no other;
  \<open>None\<close> is \<^verbatim>\<open>undefined\<close>.
\<close>

definition lookupDay :: "regularHours \<Rightarrow> string \<Rightarrow> dailySchedule option" where
  "lookupDay rh dayName =
     (if dayName = ''lunes'' then Some (lunes rh)
      else if dayName = ''martes'' then Some (martes rh)
      else if dayName = ''miercoles'' then Some (miercoles rh)
      else if dayName = ''jueves'' then Some (jueves rh)
      else if dayName = ''viernes'' then Some (viernes rh)
      else if dayName = ''sabado'' then Some (sabado rh)
      else if dayName = ''domingo'' then Some (domingo rh)
      else None)"

text \<open>Day of the week, 0 for Sunday; the first of January 1970 was a Thursday.\<close>

definition getDay :: "jsDate \<Rightarrow> int" where
  "getDay d = (d div msPerDay + 4) mod 7"

text \<open>\<^verbatim>\<open>format(d, 'EEEE').toLowerCase()\<close> of date-fns, which names days in English.\<close>

definition formatEEEE :: "jsDate \<Rightarrow> string" where
  "formatEEEE d =
     (let w = getDay d in
      if w = 0 then ''sunday'' else if w = 1 then ''monday'' else if w = 2 then ''tuesday''
      else if w = 3 then ''wednesday'' else if w = 4 then ''thursday''
      else if w = 5 then ''friday'' else ''saturday'')"

text \<open>
  \<open>normalizeDayName\<close> of the availability controller: the Spanish name of the day, lower case
  and without accents. Its shifts to the zone of Madrid are not modelled: a date at the start
  of its day keeps its day of the week under them.
\<close>

definition normalizeDayName :: "jsDate \<Rightarrow> string" where
  "normalizeDayName d =
     (let w = getDay d in
      if w = 0 then ''domingo'' else if w = 1 then ''lunes'' else if w = 2 then ''martes''
      else if w = 3 then ''miercoles'' else if w = 4 then ''jueves''
      else if w = 5 then ''viernes'' else ''sabado'')"

text \<open>
  \<^verbatim>\<open>schedule.specialDays.find(day => format(day.date) === format(date))\<close>: two dates have
  the same \<^verbatim>\<open>yyyy-MM-dd\<close> string exactly when they fall on the same day.
\<close>

definition findSpecialDay :: "schedule \<Rightarrow> jsDate \<Rightarrow> specialDay option" where
  "findSpecialDay sch d = find (\<lambda>day. sameCalendarDay (specialDate day) d) (specialDays sch)"

text \<open>A string is truthy when it is present and not empty.\<close>

definition truthy :: "string option \<Rightarrow> bool" where
  "truthy s = (case s of Some x \<Rightarrow> x \<noteq> [] | None \<Rightarrow> False)"

definition SLOT_DURATION :: int where
  "SLOT_DURATION = 30"

function addSlotsLoop :: "int \<Rightarrow> int \<Rightarrow> string list" where
  "addSlotsLoop current endTime =
     (if current \<le> endTime - SLOT_DURATION
      then formatMinutes current # addSlotsLoop (current + SLOT_DURATION) endTime
      else [])"
  by pat_completeness auto
termination
  by (relation "measure (\<lambda>(current, endTime). nat (endTime - current))")
     (auto simp: SLOT_DURATION_def)

declare addSlotsLoop.simps [simp del]

definition addSlots :: "string option \<Rightarrow> string option \<Rightarrow> string list" where
  "addSlots start end' =
     (case (start, end') of
        (Some s, Some e) \<Rightarrow>
          (case (parseTime s, parseTime e) of
             (Some startTime, Some endTime) \<Rightarrow> addSlotsLoop startTime endTime
           | _ \<Rightarrow> [])
      | _ \<Rightarrow> [])"

text \<open>\<open>generateTimeSlots\<close>; the second argument of the source is never read.\<close>

definition generateTimeSlots :: "dailySchedule option \<Rightarrow> string list" where
  "generateTimeSlots daySchedule =
     (case daySchedule of
        None \<Rightarrow> []
      | Some ds \<Rightarrow>
          if closed ds then []
          else (if truthy (openingAM ds) \<and> truthy (closingAM ds)
                then addSlots (openingAM ds) (closingAM ds) else [])
             @ (if truthy (openingPM ds) \<and> truthy (closingPM ds)
                then addSlots (openingPM ds) (closingPM ds) else []))"

datatype businessAvailability =
    Available
  | NoScheduleConfigured
  | ClosedOnDate
  | ClosedOnWeekday
  | OutsideOperatingHours
  | DoesNotFit int int

text \<open>The closing time of one half of the day, when that half is configured.\<close>

definition closingMinutes :: "string option \<Rightarrow> string option \<Rightarrow> int option" where
  "closingMinutes opening closing =
     (if truthy opening \<and> truthy closing
      then (case closing of Some c \<Rightarrow> parseTime c | None \<Rightarrow> None)
      else None)"

text \<open>\<open>checkBusinessAvailability\<close> of the appointment controller.\<close>

definition checkBusinessAvailability ::
  "schedule option \<Rightarrow> jsDate \<Rightarrow> string \<Rightarrow> int \<Rightarrow> businessAvailability" where
  "checkBusinessAvailability sched d t duration =
     (case sched of
        None \<Rightarrow> NoScheduleConfigured
      | Some sch \<Rightarrow>
          (let specialDay = findSpecialDay sch d in
           if (case specialDay of Some sd \<Rightarrow> closed (specialSchedule sd) | None \<Rightarrow> False)
           then ClosedOnDate
           else
             (let daySchedule =
                    (case specialDay of
                       Some sd \<Rightarrow> Some (specialSchedule sd)
                     | None \<Rightarrow> lookupDay (regularHours sch) (normalizeDayName d))
              in case daySchedule of
                   None \<Rightarrow> ClosedOnWeekday
                 | Some ds \<Rightarrow>
                     if closed ds then ClosedOnWeekday
                     else if t \<notin> set (generateTimeSlots (Some ds)) then OutsideOperatingHours
                     else
                       (case parseTime t of
                          None \<Rightarrow> DoesNotFit duration 0
                        | Some startMinutes \<Rightarrow>
                            (let endMinutes = startMinutes + duration;
                                 am = closingMinutes (openingAM ds) (closingAM ds);
                                 fitsAM = (case am of
                                             Some c \<Rightarrow> startMinutes < c \<and> endMinutes \<le> c
                                           | None \<Rightarrow> False);
                                 remainingAM = (case am of
                                                  Some c \<Rightarrow>
                                                    if startMinutes < c \<and> \<not> endMinutes \<le> c
                                                    then c - startMinutes else 0
                                                | None \<Rightarrow> 0);
                                 pm = closingMinutes (openingPM ds) (closingPM ds);
                                 fitsPM = (case pm of
                                             Some c \<Rightarrow> startMinutes < c \<and> endMinutes \<le> c
                                           | None \<Rightarrow> False);
                                 remainingPM = (case pm of
                                                  Some c \<Rightarrow>
                                                    if startMinutes < c \<and> \<not> endMinutes \<le> c
                                                    then c - startMinutes else remainingAM
                                                | None \<Rightarrow> remainingAM)
                             in if fitsAM \<or> fitsPM then Available
                                else DoesNotFit duration remainingPM)))))"

section \<open>Slot relocation search\<close>

text \<open>
  \<^verbatim>\<open>parse(s, 'HH:mm', new Date())\<close> of date-fns, as minutes after midnight. Each of the
  tokens \<^verbatim>\<open>HH\<close> and \<^verbatim>\<open>mm\<close> takes one or two digits from the front of what is left, the
  colon between them is taken literally, and whatever follows the minutes may only be white
  space. The hour must be below 24 and the minute below 60. \<open>None\<close> is the invalid date,
  with which every comparison is false.
\<close>

definition isBlank :: "char \<Rightarrow> bool" where
  "isBlank c = (c \<in> set [CHR 0x09, CHR 0x0A, CHR 0x0B, CHR 0x0C, CHR 0x0D, CHR 0x20, CHR 0xA0])"

definition upToTwoDigits :: "string \<Rightarrow> string" where
  "upToTwoDigits s = takeWhile isDigit (take 2 s)"

definition parseHHmm :: "string \<Rightarrow> int option" where
  "parseHHmm s =
     (let h = upToTwoDigits s;
          afterHour = drop (length h) s
      in if h = [] then None
         else
           (case afterHour of
              [] \<Rightarrow> None
            | c # afterColon \<Rightarrow>
                if c \<noteq> CHR '':'' then None
                else
                  (let m = upToTwoDigits afterColon;
                       rest = drop (length m) afterColon
                   in if m = [] \<or> \<not> list_all isBlank rest then None
                      else
                        (case (Number_str h, Number_str m) of
                           (Some hh, Some mm) \<Rightarrow>
                             if hh \<le> 23 \<and> mm \<le> 59 then Some (hh * 60 + mm) else None
                         | _ \<Rightarrow> None))))"

text \<open>
  The loop \<^verbatim>\<open>while (currentSlot < end) { push(format(currentSlot, 'HH:mm')); += 30 }\<close>.
  A slot that is pushed lies before the closing time, hence within the day.
\<close>

function slotLoop :: "int \<Rightarrow> int \<Rightarrow> string list" where
  "slotLoop currentSlot endT =
     (if currentSlot < endT
      then formatMinutes currentSlot # slotLoop (currentSlot + 30) endT
      else [])"
  by pat_completeness auto
termination
  by (relation "measure (\<lambda>(currentSlot, endT). nat (endT - currentSlot))") auto

declare slotLoop.simps [simp del]

definition halfDayTimes :: "string option \<Rightarrow> string option \<Rightarrow> string list" where
  "halfDayTimes opening closing =
     (case (opening, closing) of
        (Some opn, Some cls) \<Rightarrow>
          if opn \<noteq> [] \<and> cls \<noteq> []
          then (case (parseHHmm opn, parseHHmm cls) of
                  (Some startT, Some endT) \<Rightarrow> slotLoop startT endT
                | _ \<Rightarrow> [])
          else []
      | _ \<Rightarrow> [])"

definition availableTimes :: "dailySchedule \<Rightarrow> string list" where
  "availableTimes ds =
     halfDayTimes (openingAM ds) (closingAM ds) @ halfDayTimes (openingPM ds) (closingPM ds)"

text \<open>
  The half-hour marks an appointment occupies:
  \<^verbatim>\<open>for (let minutes = start; minutes < end; minutes += 30) bookedTimes.add(...)\<close>.
\<close>

function bookedLoop :: "int \<Rightarrow> int \<Rightarrow> string list" where
  "bookedLoop minutes endMinutesTotal =
     (if minutes < endMinutesTotal
      then formatMinutes minutes # bookedLoop (minutes + 30) endMinutesTotal
      else [])"
  by pat_completeness auto
termination
  by (relation "measure (\<lambda>(minutes, endMinutesTotal). nat (endMinutesTotal - minutes))") auto

declare bookedLoop.simps [simp del]

definition bookedTimes :: "appointment list \<Rightarrow> string list" where
  "bookedTimes existingAppointments =
     concat (map (\<lambda>app. case parseTime (time app) of
                          Some startMinutesTotal \<Rightarrow>
                            bookedLoop startMinutesTotal (startMinutesTotal + totalDuration app)
                        | None \<Rightarrow> [])
                 existingAppointments)"

text \<open>
  The inner check of the marks after the first one:
  \<^verbatim>\<open>for (mins = start; mins < end; mins += 30) { if (mins === start) continue; ... }\<close>.
\<close>

function subSlotLoop :: "string list \<Rightarrow> int \<Rightarrow> int \<Rightarrow> int \<Rightarrow> bool" where
  "subSlotLoop booked startMinutesTotal mins endMinutesTotal =
     (if mins < endMinutesTotal
      then (if mins = startMinutesTotal
            then subSlotLoop booked startMinutesTotal (mins + 30) endMinutesTotal
            else if formatMinutes mins \<in> set booked then False
            else subSlotLoop booked startMinutesTotal (mins + 30) endMinutesTotal)
      else True)"
  by pat_completeness auto
termination
  by (relation "measure (\<lambda>(booked, startMinutesTotal, mins, endMinutesTotal).
                           nat (endMinutesTotal - mins))") auto

declare subSlotLoop.simps [simp del]

text \<open>Whether the end of the service is not after the closing time of a configured half.\<close>

definition endsBeforeClosing ::
  "jsDate \<Rightarrow> jsDate \<Rightarrow> string option \<Rightarrow> string option \<Rightarrow> bool" where
  "endsBeforeClosing currentDate endTime opening closing =
     (case (opening, closing) of
        (Some opn, Some cls) \<Rightarrow>
          opn \<noteq> [] \<and> cls \<noteq> [] \<and>
          (case parseHHmm cls of
             Some c \<Rightarrow> endTime \<le> setHours currentDate c
           | None \<Rightarrow> False)
      | _ \<Rightarrow> False)"

record slot =
  slotDate :: jsDate
  slotTime :: string

text \<open>The loop over \<open>validTimes\<close>: the first time that fits and whose later marks are free.\<close>

fun firstFit ::
  "dailySchedule \<Rightarrow> string list \<Rightarrow> jsDate \<Rightarrow> int \<Rightarrow> string list \<Rightarrow> slot option" where
  "firstFit ds booked currentDate duration [] = None"
| "firstFit ds booked currentDate duration (t # ts) =
     (case parseTime t of
        None \<Rightarrow> firstFit ds booked currentDate duration ts
      | Some hm \<Rightarrow>
          (let startTime = setHours currentDate hm;
               endTime = addMinutes startTime duration;
               fits = (endsBeforeClosing currentDate endTime (openingAM ds) (closingAM ds)
                       \<or> endsBeforeClosing currentDate endTime (openingPM ds) (closingPM ds))
           in if fits \<and> subSlotLoop booked hm hm (hm + duration)
              then Some \<lparr>slotDate = currentDate, slotTime = t\<rparr>
              else firstFit ds booked currentDate duration ts))"

datatype jsError = TypeError | ValidationError | DuplicateKey

text \<open>
  One round of the loop over \<open>dayOffset\<close>. \<open>Inr None\<close> goes on to the next day,
  \<open>Inr (Some s)\<close> returns \<open>s\<close>, and \<open>Inl TypeError\<close> is the exception of reading
  \<^verbatim>\<open>.closed\<close> of \<^verbatim>\<open>undefined\<close>.
\<close>

definition searchDay ::
  "schedule \<Rightarrow> appointment list \<Rightarrow> jsDate \<Rightarrow> jsDate option \<Rightarrow> int \<Rightarrow> int
   \<Rightarrow> jsError + slot option" where
  "searchDay sch appts startDateObj currentTime duration dayOffset =
     (let currentDate = addDays startDateObj dayOffset;
          specialDay = findSpecialDay sch currentDate
      in if (case specialDay of Some sd \<Rightarrow> closed (specialSchedule sd) | None \<Rightarrow> False)
         then Inr None
         else
           (let dayName = formatEEEE currentDate;
                looked =
                  (case specialDay of
                     Some sd \<Rightarrow> Inr (Some (specialSchedule sd))
                   | None \<Rightarrow>
                       (case lookupDay (regularHours sch) dayName of
                          None \<Rightarrow> Inl TypeError
                        | Some ds \<Rightarrow> if closed ds then Inr None else Inr (Some ds)))
            in case looked of
                 Inl e \<Rightarrow> Inl e
               | Inr None \<Rightarrow> Inr None
               | Inr (Some daySchedule) \<Rightarrow>
                   (let times = availableTimes daySchedule;
                        booked = bookedTimes (findActiveOnDay appts currentDate);
                        validTimes =
                          (if dayOffset = 0
                           then filter (\<lambda>t.
                                  (case (parseTime t, currentTime) of
                                     (Some hm, Some ct) \<Rightarrow> setHours currentDate hm > ct
                                   | _ \<Rightarrow> False)
                                  \<and> t \<notin> set booked) times
                           else filter (\<lambda>t. t \<notin> set booked) times)
                    in Inr (firstFit daySchedule booked currentDate duration validTimes))))"

fun searchDays ::
  "schedule \<Rightarrow> appointment list \<Rightarrow> jsDate \<Rightarrow> jsDate option \<Rightarrow> int \<Rightarrow> nat \<Rightarrow> int
   \<Rightarrow> jsError + slot option" where
  "searchDays sch appts startDateObj currentTime duration 0 dayOffset = Inr None"
| "searchDays sch appts startDateObj currentTime duration (Suc n) dayOffset =
     (case searchDay sch appts startDateObj currentTime duration dayOffset of
        Inl e \<Rightarrow> Inl e
      | Inr (Some s) \<Rightarrow> Inr (Some s)
      | Inr None \<Rightarrow> searchDays sch appts startDateObj currentTime duration n (dayOffset + 1))"

text \<open>
  \<open>appointmentService.findNextAvailableSlot\<close>. The loop runs for
  \<^verbatim>\<open>dayOffset = 0, ..., maxDays\<close>, and the surrounding \<^verbatim>\<open>try/catch\<close> turns every
  exception into \<^verbatim>\<open>null\<close>.
\<close>

definition findNextAvailableSlot ::
  "schedule option \<Rightarrow> appointment list \<Rightarrow> jsDate \<Rightarrow> string \<Rightarrow> int \<Rightarrow> nat \<Rightarrow> slot option" where
  "findNextAvailableSlot sched appts originalDate originalTime duration maxDays =
     (let startDateObj = originalDate;
          currentTime =
            (case parseTime originalTime of
               Some hm \<Rightarrow> Some (addMinutes (setHours startDateObj hm) 30)
             | None \<Rightarrow> None)
      in case sched of
           None \<Rightarrow> None
         | Some sch \<Rightarrow>
             (case searchDays sch appts startDateObj currentTime duration (Suc maxDays) 0 of
                Inl e \<Rightarrow> None
              | Inr r \<Rightarrow> r))"

section \<open>Storage\<close>

text \<open>
  The validators of the appointment schema: the date is not before today's midnight, the
  time matches the pattern, the duration lies between 1 and 480. The model runs them at every
  \<^verbatim>\<open>save\<close>, for a document read from the collection as for a new one.
\<close>

definition schemaValid :: "jsDate \<Rightarrow> appointment \<Rightarrow> bool" where
  "schemaValid now a =
     (date a \<ge> startOfDay now \<and> wfTime (time a) \<and> 1 \<le> totalDuration a \<and> totalDuration a \<le> 480)"

text \<open>
  The unique index \<open>date_time_status_unique\<close>: key \<^verbatim>\<open>{date: 1, time: 1, status: 1}\<close>,
  restricted by its partial filter to the documents whose status is not \<open>cancelled\<close>.
\<close>

definition indexKey :: "appointment \<Rightarrow> jsDate \<times> string \<times> status" where
  "indexKey a = (date a, time a, status a)"

definition inIndex :: "appointment \<Rightarrow> bool" where
  "inIndex a = (status a \<noteq> Cancelled)"

definition duplicateKey :: "appointment list \<Rightarrow> appointment \<Rightarrow> bool" where
  "duplicateKey store a =
     (inIndex a \<and> list_ex (\<lambda>b. appId b \<noteq> appId a \<and> inIndex b \<and> indexKey b = indexKey a) store)"

definition findById :: "appointment list \<Rightarrow> string \<Rightarrow> appointment option" where
  "findById store i = find (\<lambda>a. appId a = i) store"

definition upsert :: "appointment list \<Rightarrow> appointment \<Rightarrow> appointment list" where
  "upsert store a =
     (if list_ex (\<lambda>b. appId b = appId a) store
      then map (\<lambda>b. if appId b = appId a then a else b) store
      else store @ [a])"

text \<open>
  \<^verbatim>\<open>appointment.save({ session })\<close>: validation, the pre-save hook that increments
  \<open>version\<close>, the \<open>updatedAt\<close> timestamp, and the write under the unique index.
\<close>

definition save ::
  "jsDate \<Rightarrow> appointment list \<Rightarrow> appointment \<Rightarrow> jsError + appointment list \<times> appointment" where
  "save now store a =
     (if \<not> schemaValid now a then Inl ValidationError
      else if duplicateKey store a then Inl DuplicateKey
      else (let a' = a\<lparr>version := version a + 1, updatedAt := Some now\<rparr>
            in Inr (upsert store a', a')))"

section \<open>Date validation\<close>

text \<open>Days since the epoch of a civil date (month 1 to 12), and back.\<close>

definition daysFromCivil :: "int \<Rightarrow> int \<Rightarrow> int \<Rightarrow> int" where
  "daysFromCivil y m d =
     (let y' = (if m \<le> 2 then y - 1 else y);
          era = y' div 400;
          yoe = y' - era * 400;
          mp = (if m > 2 then m - 3 else m + 9);
          doy = (153 * mp + 2) div 5 + d - 1;
          doe = yoe * 365 + yoe div 4 - yoe div 100 + doy
      in era * 146097 + doe - 719468)"

definition civilFromDays :: "int \<Rightarrow> int \<times> int \<times> int" where
  "civilFromDays z0 =
     (let z = z0 + 719468;
          era = z div 146097;
          doe = z - era * 146097;
          yoe = (doe - doe div 1460 + doe div 36524 - doe div 146096) div 365;
          y = yoe + era * 400;
          doy = doe - (365 * yoe + yoe div 4 - yoe div 100);
          mp = (5 * doy + 2) div 153;
          d = doy - (153 * mp + 2) div 5 + 1;
          m = (if mp < 10 then mp + 3 else mp - 9)
      in (if m \<le> 2 then y + 1 else y, m, d))"

text \<open>
  \<^verbatim>\<open>d.setMonth(d.getMonth() + n)\<close>: the day of the month and the time of day are kept, and a
  day past the end of the target month runs over into the next one.
\<close>

definition addMonths :: "jsDate \<Rightarrow> int \<Rightarrow> jsDate" where
  "addMonths t n =
     (case civilFromDays (t div msPerDay) of
        (y, m, d) \<Rightarrow>
          (let monthIndex = (m - 1) + n;
               ym = y + monthIndex div 12;
               mn = monthIndex mod 12
           in (daysFromCivil ym (mn + 1) 1 + d - 1) * msPerDay + t mod msPerDay))"

definition MAX_BOOKING_MONTHS :: int where
  "MAX_BOOKING_MONTHS = 2"

text \<open>\<open>isDateInRange\<close> of \<open>utils/dateUtils.ts\<close>; \<open>now\<close> is the value of \<^verbatim>\<open>new Date()\<close>.\<close>

definition isDateInRange :: "jsDate \<Rightarrow> jsDate \<Rightarrow> int \<Rightarrow> bool" where
  "isDateInRange now appointmentDate maxMonths =
     (let today = now;
          maxDate = addMonths today maxMonths
      in appointmentDate \<ge> today \<and> appointmentDate \<le> maxDate)"

datatype error =
    NotAuthenticated
  | AppointmentNotFound
  | NoPermission
  | MissingDate
  | PastDate
  | BeyondBookingRange
  | CancelledAppointment
  | NoServiceSelected
  | UnknownService
  | BusinessUnavailable businessAvailability
  | SlotAlreadyBooked
  | ConcurrentBooking
  | ServerError
  | NoEmailAddress

text \<open>
  The two date checks that open \<open>createAppointment\<close> and that \<open>rescheduleAppointment\<close>
  repeats on the new date. Both read the clock; the two readings of one request are taken to
  be the same moment \<open>now\<close>.
\<close>

definition validateDate :: "jsDate \<Rightarrow> jsDate \<Rightarrow> error option" where
  "validateDate now appointmentDate =
     (let today = startOfDay now
      in if appointmentDate < today then Some PastDate
         else if \<not> isDateInRange now appointmentDate MAX_BOOKING_MONTHS then Some BeyondBookingRange
         else None)"

section \<open>Lifecycle operations\<close>

record principal =
  id' :: string
  role :: string

text \<open>The middleware \<open>isAppointmentOwner\<close> that guards the routes of one appointment.\<close>

definition isAppointmentOwner ::
  "principal option \<Rightarrow> string \<Rightarrow> appointment list \<Rightarrow> error option" where
  "isAppointmentOwner reqUser appointmentId store =
     (case findById store appointmentId of
        None \<Rightarrow> Some AppointmentNotFound
      | Some appointment \<Rightarrow>
          (let isOwner = (case reqUser of Some u \<Rightarrow> user appointment = id' u | None \<Rightarrow> False);
               userRole = (case reqUser of Some u \<Rightarrow> role u | None \<Rightarrow> []);
               isAdminOrSuperAdmin = (userRole \<in> set [''admin'', ''superadmin''])
           in if \<not> isOwner \<and> \<not> isAdminOrSuperAdmin then Some NoPermission else None))"

text \<open>
  The test \<^verbatim>\<open>appointment.user.toString() !== req.user?.id && req.user?.role !== 'admin'\<close>
  of the controller.
\<close>

definition permissionDenied :: "principal option \<Rightarrow> appointment \<Rightarrow> bool" where
  "permissionDenied reqUser appointment =
     ((case reqUser of Some u \<Rightarrow> user appointment \<noteq> id' u | None \<Rightarrow> True)
      \<and> (case reqUser of Some u \<Rightarrow> role u \<noteq> ''admin'' | None \<Rightarrow> True))"

definition CANCELLATION_PERIOD_HOURS :: int where
  "CANCELLATION_PERIOD_HOURS = 24"

text \<open>Whether fewer than 24 hours remain until the appointment.\<close>

definition lateCancellation :: "jsDate \<Rightarrow> appointment \<Rightarrow> bool" where
  "lateCancellation now appointment =
     (case parseTime (time appointment) of
        Some hm \<Rightarrow>
          setHours00 (date appointment) hm - now < CANCELLATION_PERIOD_HOURS * 60 * msPerMinute
      | None \<Rightarrow> False)"

text \<open>\<^verbatim>\<open>reason || fallback\<close>.\<close>

definition orElse :: "string option \<Rightarrow> string \<Rightarrow> string" where
  "orElse s fallback = (case s of Some x \<Rightarrow> if x \<noteq> [] then x else fallback | None \<Rightarrow> fallback)"

text \<open>
  \<open>cancelAppointment\<close>. An error aborts the transaction, so it carries no store; the
  notification that follows the save is caught when it fails and changes nothing stored.
\<close>

definition cancelAppointment ::
  "principal option \<Rightarrow> string \<Rightarrow> string option \<Rightarrow> jsDate \<Rightarrow> appointment list
   \<Rightarrow> error + appointment list \<times> bool" where
  "cancelAppointment reqUser i reason now store =
     (case findById store i of
        None \<Rightarrow> Inl AppointmentNotFound
      | Some appointment \<Rightarrow>
          if permissionDenied reqUser appointment then Inl NoPermission
          else
            (let cancelled = appointment
                   \<lparr>status := Cancelled,
                    cancellationReason := Some (orElse reason ''Cancelado por el usuario''),
                    cancelledAt := Some now\<rparr>
             in case save now store cancelled of
                  Inl e \<Rightarrow> Inl ServerError
                | Inr (store', saved) \<Rightarrow> Inr (store', lateCancellation now appointment)))"

record service =
  serviceId :: string
  serviceDuration :: int

text \<open>
  The world around one request: the schedule document (absent before its first write), the
  catalogue of services, the clock, the identifier the next new document receives, the e-mail
  address of each user (absent when the user or the address is missing), and whether the
  dispatch of the relocation message succeeds.
\<close>

record env =
  envSchedule :: "schedule option"
  envServices :: "service list"
  envNow :: jsDate
  envNewId :: string
  envUserEmail :: "string \<Rightarrow> string option"
  envMailOk :: bool

text \<open>
  \<open>appointmentService.handleAppointmentConflict\<close>: the relocated appointment is created
  \<open>confirmed\<close>; every exception, also of the message sent after the save, gives
  \<^verbatim>\<open>null\<close>. The texts of notes and reasons are written without their accents.
\<close>

definition handleAppointmentConflict ::
  "env \<Rightarrow> appointment list \<Rightarrow> jsDate \<Rightarrow> string \<Rightarrow> string \<Rightarrow> string list \<Rightarrow> int
   \<Rightarrow> (appointment list \<times> appointment) option" where
  "handleAppointmentConflict e store d t userId svcs duration =
     (case findNextAvailableSlot (envSchedule e) store d t duration 7 of
        None \<Rightarrow> None
      | Some nextSlot \<Rightarrow>
          (let newAppointment =
                 \<lparr>appId = envNewId e, user = userId, services = svcs,
                  date = slotDate nextSlot, time = slotTime nextSlot,
                  totalDuration = duration, status = Confirmed,
                  notes' = ''Cita reprogramada automaticamente por conflicto de horario'',
                  cancellationReason = None, cancelledAt = None,
                  reminderSent = False, reminderSentAt = None,
                  createdAt = envNow e, updatedAt = None, version = 0\<rparr>
           in case save (envNow e) store newAppointment of
                Inl err \<Rightarrow> None
              | Inr (store', saved) \<Rightarrow>
                  if truthy (envUserEmail e userId) \<and> \<not> envMailOk e then None
                  else Some (store', saved)))"

text \<open>\<^verbatim>\<open>Service.find({ _id: { $in: services } })\<close>.\<close>

definition findServices :: "service list \<Rightarrow> string list \<Rightarrow> service list" where
  "findServices catalogue svcs = filter (\<lambda>s. serviceId s \<in> set svcs) catalogue"

text \<open>
  \<open>createAppointment\<close>. The result carries the new store, the stored appointment and the
  flag \<open>rescheduled\<close> of the answer.
\<close>

definition createAppointment ::
  "env \<Rightarrow> principal option \<Rightarrow> string list option \<Rightarrow> jsDate \<Rightarrow> string \<Rightarrow> string option
   \<Rightarrow> appointment list \<Rightarrow> error + appointment list \<times> appointment \<times> bool" where
  "createAppointment e reqUser svcsOpt appointmentDate t notesOpt store =
     (case reqUser of
        None \<Rightarrow> Inl NotAuthenticated
      | Some u \<Rightarrow>
          (case validateDate (envNow e) appointmentDate of
             Some err \<Rightarrow> Inl err
           | None \<Rightarrow>
               (case svcsOpt of
                  None \<Rightarrow> Inl NoServiceSelected
                | Some svcs \<Rightarrow>
                    if svcs = [] then Inl NoServiceSelected
                    else
                      (let servicesData = findServices (envServices e) svcs in
                       if length servicesData \<noteq> length svcs then Inl UnknownService
                       else
                         (let totalDuration = sum_list (map serviceDuration servicesData);
                              businessAvailability =
                                checkBusinessAvailability (envSchedule e) appointmentDate t
                                  totalDuration
                          in if businessAvailability \<noteq> Available
                             then Inl (BusinessUnavailable businessAvailability)
                             else if \<not> available (verifyAppointmentAvailability store
                                                      appointmentDate t totalDuration)
                             then (case handleAppointmentConflict e store appointmentDate t
                                          (id' u) svcs totalDuration of
                                     Some (store', alternative) \<Rightarrow> Inr (store', alternative, True)
                                   | None \<Rightarrow> Inl ConcurrentBooking)
                             else
                               (let newAppointment =
                                      \<lparr>appId = envNewId e, user = id' u, services = svcs,
                                       date = appointmentDate, time = t,
                                       totalDuration = totalDuration, status = Pending,
                                       notes' = orElse notesOpt [],
                                       cancellationReason = None, cancelledAt = None,
                                       reminderSent = False, reminderSentAt = None,
                                       createdAt = envNow e, updatedAt = None, version = 0\<rparr>
                                in case save (envNow e) store newAppointment of
                                     Inr (store', saved) \<Rightarrow> Inr (store', saved, False)
                                   | Inl DuplicateKey \<Rightarrow>
                                       (case handleAppointmentConflict e store appointmentDate t
                                               (id' u) svcs totalDuration of
                                          Some (store', alternative) \<Rightarrow>
                                            Inr (store', alternative, True)
                                        | None \<Rightarrow> Inl ConcurrentBooking)
                                   | Inl err \<Rightarrow> Inl ServerError))))))"

text \<open>
  \<open>rescheduleAppointment\<close>. The new date, time and services are optional; what is missing
  is taken from the stored appointment.
\<close>

definition rescheduleAppointment ::
  "env \<Rightarrow> principal option \<Rightarrow> string \<Rightarrow> jsDate option \<Rightarrow> string option \<Rightarrow> string list option
   \<Rightarrow> appointment list \<Rightarrow> error + appointment list \<times> appointment \<times> bool" where
  "rescheduleAppointment e reqUser i dateOpt timeOpt svcsOpt store =
     (case findById store i of
        None \<Rightarrow> Inl AppointmentNotFound
      | Some appointment \<Rightarrow>
          if permissionDenied reqUser appointment then Inl NoPermission
          else if status appointment = Cancelled then Inl CancelledAppointment
          else
            (let newDate = (case dateOpt of Some d \<Rightarrow> d | None \<Rightarrow> date appointment);
                 newTime = orElse timeOpt (time appointment)
             in case validateDate (envNow e) newDate of
                  Some err \<Rightarrow> Inl err
                | None \<Rightarrow>
                    (let servicesData =
                           (case svcsOpt of
                              Some svcs \<Rightarrow> findServices (envServices e) svcs
                            | None \<Rightarrow> [])
                     in if (case svcsOpt of
                              Some svcs \<Rightarrow> length servicesData \<noteq> length svcs
                            | None \<Rightarrow> False)
                        then Inl UnknownService
                        else
                          (let updatedServices =
                                 (case svcsOpt of
                                    Some svcs \<Rightarrow> svcs
                                  | None \<Rightarrow> services appointment);
                               totalDuration' =
                                 (case svcsOpt of
                                    Some svcs \<Rightarrow> sum_list (map serviceDuration servicesData)
                                  | None \<Rightarrow> totalDuration appointment);
                               businessAvailability =
                                 checkBusinessAvailability (envSchedule e) newDate newTime
                                   totalDuration'
                           in if businessAvailability \<noteq> Available
                              then Inl (BusinessUnavailable businessAvailability)
                              else if checkTimeConflict store newDate newTime totalDuration'
                                        (Some (appId appointment))
                              then Inl SlotAlreadyBooked
                              else
                                (let updated = appointment
                                       \<lparr>date := newDate, time := newTime,
                                        services := updatedServices,
                                        totalDuration := totalDuration',
                                        updatedAt := Some (envNow e)\<rparr>
                                 in case save (envNow e) store updated of
                                      Inr (store', saved) \<Rightarrow> Inr (store', saved, False)
                                    | Inl DuplicateKey \<Rightarrow>
                                        (case reqUser of
                                           None \<Rightarrow> Inl ServerError
                                         | Some u \<Rightarrow>
                                             (case handleAppointmentConflict e store newDate
                                                     newTime (id' u) updatedServices
                                                     totalDuration' of
                                                None \<Rightarrow> Inl ConcurrentBooking
                                              | Some (store', alternative) \<Rightarrow>
                                                  (let original = updated
                                                         \<lparr>status := Cancelled,
                                                          cancellationReason := Some
                                                            ''Cancelada automaticamente por reprogramacion'',
                                                          cancelledAt := Some (envNow e)\<rparr>
                                                   in case save (envNow e) store' original of
                                                        Inl err \<Rightarrow> Inl ServerError
                                                      | Inr (store'', saved) \<Rightarrow>
                                                          Inr (store'', alternative, True))))
                                    | Inl err \<Rightarrow> Inl ServerError)))))"

text \<open>
  One appointment of \<open>notifyScheduleChange\<close>: nothing happens without an address; the message
  is sent first, and only then the appointment is marked and saved. An exception of the
  message or of the save is caught and leaves the appointment as it was.
\<close>

definition notifyOne ::
  "(string \<Rightarrow> string option) \<Rightarrow> (appointment \<Rightarrow> bool) \<Rightarrow> string option \<Rightarrow> jsDate
   \<Rightarrow> appointment list \<Rightarrow> appointment \<Rightarrow> appointment list" where
  "notifyOne userEmail sendOk reason now store appointment =
     (if \<not> truthy (userEmail (user appointment)) then store
      else if \<not> sendOk appointment then store
      else
        (let marked = appointment
               \<lparr>status := NeedsRescheduling,
                notes' := notes' appointment @ [CHR 0x0A] @ ''Cancelado por el local: ''
                          @ orElse reason ''Cambio de horario''\<rparr>
         in case save now store marked of
              Inl err \<Rightarrow> store
            | Inr (store', saved) \<Rightarrow> store'))"

text \<open>The query of \<open>notifyScheduleChange\<close> for the appointments of the day.\<close>

definition affectedAppointments :: "appointment list \<Rightarrow> jsDate \<Rightarrow> appointment list" where
  "affectedAppointments store d =
     (let changeDate = startOfDay d;
          nextDay = addDays changeDate 1
      in filter (\<lambda>a. changeDate \<le> date a \<and> date a < nextDay \<and> status a \<noteq> Cancelled) store)"

text \<open>
  \<open>notifyScheduleChange\<close>; the result carries the store and the number of appointments
  reported as notified. The callbacks that \<^verbatim>\<open>Promise.all\<close> awaits are run one after the
  other, in the order of the query.
\<close>

definition notifyScheduleChange ::
  "(string \<Rightarrow> string option) \<Rightarrow> (appointment \<Rightarrow> bool) \<Rightarrow> jsDate option \<Rightarrow> string option
   \<Rightarrow> jsDate \<Rightarrow> appointment list \<Rightarrow> error + appointment list \<times> nat" where
  "notifyScheduleChange userEmail sendOk dateOpt reason now store =
     (case dateOpt of
        None \<Rightarrow> Inl MissingDate
      | Some d \<Rightarrow>
          (let affected = affectedAppointments store d
           in if affected = [] then Inr (store, 0)
              else Inr (foldl (notifyOne userEmail sendOk reason now) store affected,
                        length affected)))"

section \<open>Schedule changes, completion and reminders\<close>

text \<open>
  The loop of \<open>scheduleService.processScheduleChange\<close>: each appointment is cancelled with
  the reason and saved within the transaction. An exception of a save leaves the loop; the
  message that follows the save is caught when it fails and changes nothing stored.
\<close>

fun cancelLoop ::
  "string \<Rightarrow> jsDate \<Rightarrow> appointment list \<Rightarrow> appointment list \<Rightarrow> jsError + appointment list" where
  "cancelLoop cancellationReason' now store [] = Inr store"
| "cancelLoop cancellationReason' now store (appointment # rest) =
     (case save now store
             (appointment\<lparr>status := Cancelled,
                          cancellationReason := Some cancellationReason',
                          cancelledAt := Some now\<rparr>) of
        Inl err \<Rightarrow> Inl err
      | Inr (store', saved) \<Rightarrow> cancelLoop cancellationReason' now store' rest)"

text \<open>
  \<open>scheduleService.processScheduleChange\<close>. Nothing is done for a day that is not closed.
  \<open>Inl\<close> is the exception that is thrown again after the transaction was aborted, so it
  carries no store.
\<close>

definition processScheduleChange ::
  "jsDate \<Rightarrow> bool \<Rightarrow> string option \<Rightarrow> jsDate \<Rightarrow> appointment list \<Rightarrow> jsError + appointment list" where
  "processScheduleChange d isClosed reason now store =
     (let dayStart = startOfDay d;
          dayEnd = endOfDay d
      in if \<not> isClosed then Inr store
         else
           (let affected =
                  filter (\<lambda>a. dayStart \<le> date a \<and> date a \<le> dayEnd
                               \<and> status a \<notin> set [Cancelled, Completed]) store
            in if affected = [] then Inr store
               else cancelLoop (orElse reason ''Cambio en el horario de la peluqueria'')
                      now store affected))"

text \<open>
  \<^verbatim>\<open>doc.updateOne({ status: 'completed' }, { runValidators: false })\<close>: no validator and
  no pre-save hook runs, so \<open>version\<close> stays; the timestamp \<open>updatedAt\<close> is set and the
  unique index is enforced.
\<close>

definition updateToCompleted :: "jsDate \<Rightarrow> appointment \<Rightarrow> appointment" where
  "updateToCompleted now a = a\<lparr>status := Completed, updatedAt := Some now\<rparr>"

text \<open>
  \<open>completeAppointment\<close>, as far as it concerns appointments: the shopping cart it handles
  afterwards is another collection, and the update of the appointment is not undone when
  that later part fails. Identifiers are taken to be well-formed \<^verbatim>\<open>ObjectId\<close>s.
\<close>

definition completeAppointment ::
  "principal option \<Rightarrow> string \<Rightarrow> jsDate \<Rightarrow> appointment list \<Rightarrow> error + appointment list" where
  "completeAppointment reqUser i now store =
     (if (case reqUser of
            Some u \<Rightarrow> role u \<noteq> ''admin'' \<and> role u \<noteq> ''superadmin''
          | None \<Rightarrow> True)
      then Inl NoPermission
      else
        (case findById store i of
           None \<Rightarrow> Inl AppointmentNotFound
         | Some appointment \<Rightarrow>
             if duplicateKey store (updateToCompleted now appointment) then Inl ServerError
             else Inr (upsert store (updateToCompleted now appointment))))"

text \<open>
  \<^verbatim>\<open>Appointment.updateMany(filter, { $set: { status: 'completed', updatedAt } })\<close>: the
  documents that match are updated one after the other, outside of any transaction; a
  violation of the unique index ends the update and keeps what was written before it.
\<close>

fun markLoop :: "jsDate \<Rightarrow> appointment list \<Rightarrow> appointment list \<Rightarrow> appointment list" where
  "markLoop now store [] = store"
| "markLoop now store (a # rest) =
     (if duplicateKey store (updateToCompleted now a) then store
      else markLoop now (upsert store (updateToCompleted now a)) rest)"

text \<open>\<open>notificationService.markCompletedAppointments\<close>.\<close>

definition markCompletedAppointments :: "jsDate \<Rightarrow> appointment list \<Rightarrow> appointment list" where
  "markCompletedAppointments now store =
     (let yesterday = addDays now (- 1);
          yesterdayEnd = endOfDay yesterday
      in markLoop now store
           (filter (\<lambda>a. date a \<le> yesterdayEnd \<and> status a \<in> set [Pending, Confirmed]) store))"

text \<open>
  One appointment of \<open>sendAppointmentReminders\<close>: nothing happens without an address; the
  reminder is sent first, and only then the appointment is flagged and saved. An exception of
  the message or of the save is caught and leaves the appointment as it was.
\<close>

definition remindOne ::
  "(string \<Rightarrow> string option) \<Rightarrow> (appointment \<Rightarrow> bool) \<Rightarrow> jsDate
   \<Rightarrow> appointment list \<Rightarrow> appointment \<Rightarrow> appointment list" where
  "remindOne userEmail sendOk now store appointment =
     (if \<not> truthy (userEmail (user appointment)) then store
      else if \<not> sendOk appointment then store
      else
        (case save now store (appointment\<lparr>reminderSent := True, reminderSentAt := Some now\<rparr>) of
           Inl err \<Rightarrow> store
         | Inr (store', saved) \<Rightarrow> store'))"

text \<open>\<open>notificationService.sendAppointmentReminders\<close>, for the appointments of tomorrow.\<close>

definition sendAppointmentReminders ::
  "(string \<Rightarrow> string option) \<Rightarrow> (appointment \<Rightarrow> bool) \<Rightarrow> jsDate \<Rightarrow> appointment list
   \<Rightarrow> appointment list" where
  "sendAppointmentReminders userEmail sendOk now store =
     (let tomorrow = addDays now 1;
          tomorrowStart = startOfDay tomorrow;
          tomorrowEnd = endOfDay tomorrow;
          appointments =
            filter (\<lambda>a. tomorrowStart \<le> date a \<and> date a \<le> tomorrowEnd
                         \<and> status a \<in> set [Pending, Confirmed] \<and> \<not> reminderSent a) store
      in foldl (remindOne userEmail sendOk now) store appointments)"

text \<open>
  \<open>toggleAppointmentReminder\<close>, for a request whose \<^verbatim>\<open>enabled\<close> is a boolean: only the
  owner may switch the reminder of an appointment.
\<close>

definition toggleAppointmentReminder ::
  "principal option \<Rightarrow> string \<Rightarrow> bool \<Rightarrow> jsDate \<Rightarrow> appointment list
   \<Rightarrow> error + appointment list" where
  "toggleAppointmentReminder reqUser i enabled now store =
     (case findById store i of
        None \<Rightarrow> Inl AppointmentNotFound
      | Some appointment \<Rightarrow>
          if (case reqUser of Some u \<Rightarrow> user appointment \<noteq> id' u | None \<Rightarrow> True)
          then Inl NoPermission
          else
            (case save now store
                    (appointment\<lparr>reminderSent := \<not> enabled,
                                 reminderSentAt := (if \<not> enabled then Some now else None)\<rparr>) of
               Inl err \<Rightarrow> Inl ServerError
             | Inr (store', saved) \<Rightarrow> Inr store'))"

text \<open>\<open>sendManualReminder\<close>: an administrator sends the reminder of one appointment.\<close>

definition sendManualReminder ::
  "(string \<Rightarrow> string option) \<Rightarrow> (appointment \<Rightarrow> bool) \<Rightarrow> principal option \<Rightarrow> string
   \<Rightarrow> jsDate \<Rightarrow> appointment list \<Rightarrow> error + appointment list" where
  "sendManualReminder userEmail sendOk reqUser i now store =
     (if (case reqUser of
            Some u \<Rightarrow> role u \<noteq> ''admin'' \<and> role u \<noteq> ''superadmin''
          | None \<Rightarrow> True)
      then Inl NoPermission
      else
        (case findById store i of
           None \<Rightarrow> Inl AppointmentNotFound
         | Some appointment \<Rightarrow>
             if status appointment = Cancelled then Inl CancelledAppointment
             else if date appointment < now then Inl PastDate
             else if \<not> truthy (userEmail (user appointment)) then Inl NoEmailAddress
             else if \<not> sendOk appointment then Inl ServerError
             else
               (case save now store
                       (appointment\<lparr>reminderSent := True, reminderSentAt := Some now\<rparr>) of
                  Inl err \<Rightarrow> Inl ServerError
                | Inr (store', saved) \<Rightarrow> Inr store')))"

section \<open>Every operation that writes appointments\<close>

text \<open>
  The requests and jobs that write to the collection of appointments, with their arguments:
  the ten operations of the program in which an appointment is saved or updated.
\<close>

datatype operation =
    CreateAppointment "principal option" "string list option" jsDate string "string option"
  | CancelAppointment "principal option" string "string option"
  | RescheduleAppointment
      "principal option" string "jsDate option" "string option" "string list option"
  | NotifyScheduleChange "jsDate option" "string option"
  | ProcessScheduleChange jsDate bool "string option"
  | CompleteAppointment "principal option" string
  | MarkCompletedAppointments
  | SendAppointmentReminders
  | ToggleAppointmentReminder "principal option" string bool
  | SendManualReminder "principal option" string

text \<open>
  The collection after one operation; an operation that answers with an error, or whose
  transaction is aborted, leaves it as it was. \<open>sendOk\<close> tells for which appointments the
  dispatch of a message succeeds.
\<close>

definition storeAfter ::
  "env \<Rightarrow> (appointment \<Rightarrow> bool) \<Rightarrow> operation \<Rightarrow> appointment list \<Rightarrow> appointment list" where
  "storeAfter e sendOk op store =
     (case op of
        CreateAppointment reqUser svcsOpt d t notesOpt \<Rightarrow>
          (case createAppointment e reqUser svcsOpt d t notesOpt store of
             Inr (store', saved, rescheduled) \<Rightarrow> store'
           | Inl err \<Rightarrow> store)
      | CancelAppointment reqUser i reason \<Rightarrow>
          (case cancelAppointment reqUser i reason (envNow e) store of
             Inr (store', late) \<Rightarrow> store'
           | Inl err \<Rightarrow> store)
      | RescheduleAppointment reqUser i dateOpt timeOpt svcsOpt \<Rightarrow>
          (case rescheduleAppointment e reqUser i dateOpt timeOpt svcsOpt store of
             Inr (store', saved, rescheduled) \<Rightarrow> store'
           | Inl err \<Rightarrow> store)
      | NotifyScheduleChange dateOpt reason \<Rightarrow>
          (case notifyScheduleChange (envUserEmail e) sendOk dateOpt reason (envNow e) store of
             Inr (store', n) \<Rightarrow> store'
           | Inl err \<Rightarrow> store)
      | ProcessScheduleChange d isClosed reason \<Rightarrow>
          (case processScheduleChange d isClosed reason (envNow e) store of
             Inr store' \<Rightarrow> store'
           | Inl err \<Rightarrow> store)
      | CompleteAppointment reqUser i \<Rightarrow>
          (case completeAppointment reqUser i (envNow e) store of
             Inr store' \<Rightarrow> store'
           | Inl err \<Rightarrow> store)
      | MarkCompletedAppointments \<Rightarrow> markCompletedAppointments (envNow e) store
      | SendAppointmentReminders \<Rightarrow>
          sendAppointmentReminders (envUserEmail e) sendOk (envNow e) store
      | ToggleAppointmentReminder reqUser i enabled \<Rightarrow>
          (case toggleAppointmentReminder reqUser i enabled (envNow e) store of
             Inr store' \<Rightarrow> store'
           | Inl err \<Rightarrow> store)
      | SendManualReminder reqUser i \<Rightarrow>
          (case sendManualReminder (envUserEmail e) sendOk reqUser i (envNow e) store of
             Inr store' \<Rightarrow> store'
           | Inl err \<Rightarrow> store))"

section \<open>Properties the relocation search is measured against\<close>

text \<open>
  The interval \<open>[t, t + duration)\<close> lies within one configured half of the day, between its
  opening and its closing time.
\<close>

definition withinHalf :: "string option \<Rightarrow> string option \<Rightarrow> string \<Rightarrow> int \<Rightarrow> bool" where
  "withinHalf opening closing t duration =
     (case (opening, closing) of
        (Some opn, Some cls) \<Rightarrow>
          (case (parseTime opn, parseTime cls, parseTime t) of
             (Some lo, Some hi, Some s) \<Rightarrow> lo \<le> s \<and> s + duration \<le> hi
           | _ \<Rightarrow> False)
      | _ \<Rightarrow> False)"

definition fitsSingleInterval :: "dailySchedule \<Rightarrow> string \<Rightarrow> int \<Rightarrow> bool" where
  "fitsSingleInterval ds t duration =
     (withinHalf (openingAM ds) (closingAM ds) t duration
      \<or> withinHalf (openingPM ds) (closingPM ds) t duration)"

text \<open>
  The open intervals of a day: for each half whose opening and closing time are both given,
  the minutes from the opening time up to, and not including, the closing time.
\<close>

definition openInterval :: "string option \<Rightarrow> string option \<Rightarrow> (int \<times> int) list" where
  "openInterval opening closing =
     (case (opening, closing) of
        (Some opn, Some cls) \<Rightarrow>
          if opn \<noteq> [] \<and> cls \<noteq> [] then [(minutesOf opn, minutesOf cls)] else []
      | _ \<Rightarrow> [])"

definition openIntervals :: "dailySchedule \<Rightarrow> (int \<times> int) list" where
  "openIntervals ds =
     openInterval (openingAM ds) (closingAM ds) @ openInterval (openingPM ds) (closingPM ds)"

text \<open>
  Minute \<open>m\<close> of day \<open>d\<close> is taken: it lies within \<open>[start, start + totalDuration)\<close> of an
  appointment of that day that is not cancelled.
\<close>

definition occupiedAt :: "appointment list \<Rightarrow> jsDate \<Rightarrow> int \<Rightarrow> bool" where
  "occupiedAt appts d m =
     list_ex (\<lambda>a. sameCalendarDay (date a) d \<and> status a \<noteq> Cancelled
                  \<and> minutesOf (time a) \<le> m \<and> m < minutesOf (time a) + totalDuration a)
             appts"

text \<open>A day is fully booked when every minute of each of its open intervals is taken.\<close>

definition fullyBooked :: "dailySchedule \<Rightarrow> appointment list \<Rightarrow> jsDate \<Rightarrow> bool" where
  "fullyBooked ds appts d =
     list_all (\<lambda>(opn, cls). list_all (occupiedAt appts d) [opn..cls - 1]) (openIntervals ds)"

text \<open>
  The appointments of the day that are not cancelled start on the half-hour grid of the
  day's opening times, as every appointment does that was booked at a time the day offers.
\<close>

definition onSlotGrid :: "dailySchedule \<Rightarrow> appointment list \<Rightarrow> jsDate \<Rightarrow> bool" where
  "onSlotGrid ds appts d =
     list_all (\<lambda>a. sameCalendarDay (date a) d \<and> status a \<noteq> Cancelled
                   \<longrightarrow> list_all (\<lambda>(opn, cls). (minutesOf (time a) - opn) mod 30 = 0)
                                 (openIntervals ds))
              appts"

text \<open>
  A day is closed or fully booked: under its special day when it has one, under the weekly
  entry of its day of the week otherwise.
\<close>

definition closedOrFullyBooked :: "schedule \<Rightarrow> appointment list \<Rightarrow> jsDate \<Rightarrow> bool" where
  "closedOrFullyBooked sch appts d =
     (case findSpecialDay sch d of
        Some sd \<Rightarrow> closed (specialSchedule sd) \<or> fullyBooked (specialSchedule sd) appts d
      | None \<Rightarrow>
          (case lookupDay (regularHours sch) (normalizeDayName d) of
             Some ds \<Rightarrow> closed ds \<or> fullyBooked ds appts d
           | None \<Rightarrow> True))"

text \<open>The schedule of the day in force: the special day's, else the weekly entry.\<close>

definition scheduleOfDay :: "schedule \<Rightarrow> jsDate \<Rightarrow> dailySchedule option" where
  "scheduleOfDay sch d =
     (case findSpecialDay sch d of
        Some sd \<Rightarrow> Some (specialSchedule sd)
      | None \<Rightarrow> lookupDay (regularHours sch) (normalizeDayName d))"

text \<open>
  The data is well formed: the times of the schedule that are given and the times of the
  appointments have the shape \<open>HH:MM\<close> of the appointment schema, and on each day the
  appointments start on that day's grid.
\<close>

definition wfField :: "string option \<Rightarrow> bool" where
  "wfField s = (case s of Some x \<Rightarrow> x = [] \<or> wfTime x | None \<Rightarrow> True)"

definition wfDaily :: "dailySchedule \<Rightarrow> bool" where
  "wfDaily ds =
     (wfField (openingAM ds) \<and> wfField (closingAM ds)
      \<and> wfField (openingPM ds) \<and> wfField (closingPM ds))"

definition wfDay :: "schedule \<Rightarrow> appointment list \<Rightarrow> jsDate \<Rightarrow> bool" where
  "wfDay sch appts d =
     (case scheduleOfDay sch d of
        Some ds \<Rightarrow> wfDaily ds \<and> onSlotGrid ds appts d
      | None \<Rightarrow> True)"

section \<open>Properties the schedule-change notification is measured against\<close>

text \<open>
  An appointment as \<open>notifyScheduleChange\<close> leaves it once its user has been notified, and
  the outcome for any appointment the query selects.
\<close>

definition marked :: "string option \<Rightarrow> jsDate \<Rightarrow> appointment \<Rightarrow> appointment" where
  "marked reason now a =
     a\<lparr>status := NeedsRescheduling,
       notes' := notes' a @ [CHR 0x0A] @ ''Cancelado por el local: ''
                 @ orElse reason ''Cambio de horario'',
       version := version a + 1, updatedAt := Some now\<rparr>"

definition notified ::
  "(string \<Rightarrow> string option) \<Rightarrow> (appointment \<Rightarrow> bool) \<Rightarrow> string option \<Rightarrow> jsDate
   \<Rightarrow> appointment \<Rightarrow> appointment" where
  "notified userEmail sendOk reason now a =
     (if truthy (userEmail (user a)) \<and> sendOk a then marked reason now a else a)"

text \<open>No two appointments that are not cancelled share a date and a time.\<close>

definition noSharedSlot :: "appointment list \<Rightarrow> bool" where
  "noSharedSlot store =
     (\<forall>a\<in>set store. \<forall>b\<in>set store.
        appId a \<noteq> appId b \<and> status a \<noteq> Cancelled \<and> status b \<noteq> Cancelled
        \<longrightarrow> \<not> (date a = date b \<and> time a = time b))"

section \<open>Properties the terminal states are measured against\<close>

text \<open>The date, time, services and total duration of two appointments agree.\<close>

definition sameBooking :: "appointment \<Rightarrow> appointment \<Rightarrow> bool" where
  "sameBooking a a' =
     (date a' = date a \<and> time a' = time a \<and> services a' = services a
      \<and> totalDuration a' = totalDuration a)"

text \<open>
  The operations from which a completed appointment is not protected: a reschedule or a
  cancellation addressed to it, and the notification of a schedule change for its date.
\<close>

definition unguarded :: "appointment \<Rightarrow> operation \<Rightarrow> bool" where
  "unguarded a op =
     (status a = Completed
      \<and> (case op of
           RescheduleAppointment reqUser i dateOpt timeOpt svcsOpt \<Rightarrow> i = appId a
         | CancelAppointment reqUser i reason \<Rightarrow> i = appId a
         | NotifyScheduleChange dateOpt reason \<Rightarrow>
             (case dateOpt of Some d \<Rightarrow> sameCalendarDay (date a) d | None \<Rightarrow> False)
         | _ \<Rightarrow> False))"

text \<open>The operation is \<open>completeAppointment\<close>, addressed to the appointment.\<close>

definition completes :: "operation \<Rightarrow> appointment \<Rightarrow> bool" where
  "completes op a = (case op of CompleteAppointment reqUser i \<Rightarrow> i = appId a | _ \<Rightarrow> False)"


section \<open>Example data\<close>

text \<open>The tenth of June 2024, a Monday, at midnight.\<close>

definition exampleDay :: jsDate where "exampleDay = 1717977600000"

definition exampleAppointment :: "string \<Rightarrow> string \<Rightarrow> string \<Rightarrow> int \<Rightarrow> status \<Rightarrow> appointment" where
  "exampleAppointment i u t dur st =
     \<lparr>appId = i, user = u, services = [''s1''], date = exampleDay, time = t,
      totalDuration = dur, status = st, notes' = [], cancellationReason = None,
      cancelledAt = None, reminderSent = False, reminderSentAt = None,
      createdAt = 0, updatedAt = None, version = 0\<rparr>"

text \<open>Noon of the seventh of June 2024, three days earlier.\<close>

definition exampleNow :: jsDate where "exampleNow = 1717761600000"

definition openMorning :: dailySchedule where
  "openMorning =
     \<lparr>closed = False, openingAM = Some ''09:00'', closingAM = Some ''13:00'',
      openingPM = None, closingPM = None\<rparr>"

definition openSplit :: dailySchedule where
  "openSplit =
     \<lparr>closed = False, openingAM = Some ''09:00'', closingAM = Some ''13:00'',
      openingPM = Some ''16:00'', closingPM = Some ''20:00''\<rparr>"

definition closedDay :: dailySchedule where
  "closedDay =
     \<lparr>closed = True, openingAM = None, closingAM = None, openingPM = None, closingPM = None\<rparr>"

definition everyDay :: "dailySchedule \<Rightarrow> regularHours" where
  "everyDay ds =
     \<lparr>lunes = ds, martes = ds, miercoles = ds, jueves = ds, viernes = ds, sabado = ds,
      domingo = ds\<rparr>"

definition special :: "int \<Rightarrow> dailySchedule \<Rightarrow> specialDay" where
  "special n ds = \<lparr>specialDate = addDays exampleDay n, specialSchedule = ds\<rparr>"

definition exampleEnv :: "schedule \<Rightarrow> env" where
  "exampleEnv sch =
     \<lparr>envSchedule = Some sch,
      envServices = [\<lparr>serviceId = ''s1'', serviceDuration = 30\<rparr>],
      envNow = exampleNow, envNewId = ''a9'',
      envUserEmail = (\<lambda>u. Some ''client@example.org''), envMailOk = True\<rparr>"

text \<open>
  A schedule whose day 0 is open in the morning and whose following \<open>n\<close> days are closed
  special days; the weekly hours are open every morning.
\<close>

definition closedAfterToday :: "nat \<Rightarrow> schedule" where
  "closedAfterToday n =
     \<lparr>regularHours = everyDay openMorning,
      specialDays = special 0 openMorning # map (\<lambda>k. special (int k) closedDay) [1..<Suc n]\<rparr>"

text \<open>One appointment that fills the whole morning of the example day.\<close>

definition fullMorning :: "appointment list" where
  "fullMorning = [exampleAppointment ''a1'' ''u1'' ''09:00'' 240 Pending]"

text \<open>The same schedule with day 7 open again, as a special day.\<close>

definition reopensOnDay7 :: schedule where
  "reopensOnDay7 =
     (closedAfterToday 6)
       \<lparr>specialDays := specialDays (closedAfterToday 6) @ [special 7 openMorning]\<rparr>"

text \<open>
  A day open from 09:00 to 10:00 and two appointments that fill it, the second of which
  starts at a quarter past.
\<close>

definition openHour :: dailySchedule where
  "openHour =
     \<lparr>closed = False, openingAM = Some ''09:00'', closingAM = Some ''10:00'',
      openingPM = None, closingPM = None\<rparr>"

definition offGrid :: "appointment list" where
  "offGrid = [exampleAppointment ''a1'' ''u1'' ''09:00'' 15 Pending,
              exampleAppointment ''a2'' ''u2'' ''09:15'' 45 Pending]"

section \<open>The conflict check decides interval overlap\<close>

lemma isDigit_not_colon: "isDigit c \<Longrightarrow> c \<noteq> CHR '':''"
  by (auto simp: isDigit_def digits_def)

lemma splitColon_wf:
  "a \<noteq> CHR '':'' \<Longrightarrow> b \<noteq> CHR '':'' \<Longrightarrow> d \<noteq> CHR '':'' \<Longrightarrow> e \<noteq> CHR '':'' \<Longrightarrow>
   splitColon [a, b, CHR '':'', d, e] = [[a, b], [d, e]]"
  by simp

lemma wfTime_shape:
  "wfTime t \<Longrightarrow>
   \<exists>a b d e. t = [a, b, CHR '':'', d, e] \<and> isDigit a \<and> isDigit b \<and> isDigit d \<and> isDigit e"
  by (auto simp: wfTime_def isDigit_def digits_def split: list.splits)

lemma wfTime_parseTime:
  assumes "wfTime t"
  shows "\<exists>m. parseTime t = Some m"
proof -
  from wfTime_shape[OF assms] obtain a b d e where t: "t = [a, b, CHR '':'', d, e]"
    and dig: "isDigit a" "isDigit b" "isDigit d" "isDigit e"
    by blast
  have "splitColon t = [[a, b], [d, e]]"
    unfolding t using dig by (intro splitColon_wf isDigit_not_colon)
  then show ?thesis
    using dig by (simp add: parseTime_def Number_str_def)
qed

lemma overlapTest_iff:
  "0 < d \<Longrightarrow> 0 < dur \<Longrightarrow>
   overlapTest (Some s) d (Some a) dur = (s < a + dur \<and> s + d > a)"
  by (auto simp: overlapTest_def Let_def)

lemma conflictLoop_iff:
  "conflictLoop start d as = (\<exists>a\<in>set as. overlapTest start d (parseTime (time a)) (totalDuration a))"
  by (induction as) auto

lemma day_range_gen:
  fixes M :: int
  assumes M: "0 < M"
  shows "(d - d mod M \<le> x \<and> x \<le> d - d mod M + M - 1) = (x div M = d div M)"
proof -
  define q where "q = d div M"
  have e: "d - d mod M = q * M"
    by (simp add: q_def minus_mod_eq_div_mult)
  show ?thesis
  proof
    assume b: "d - d mod M \<le> x \<and> x \<le> d - d mod M + M - 1"
    define r where "r = x - q * M"
    have r: "0 \<le> r" "r < M" using b e by (simp_all add: r_def)
    have "x = r + q * M" by (simp add: r_def)
    then have "x div M = q + r div M" using M by simp
    also have "r div M = 0" using r by simp
    finally show "x div M = d div M" by (simp add: q_def)
  next
    assume "x div M = d div M"
    then have "x - x mod M = q * M"
      by (simp add: q_def minus_mod_eq_div_mult)
    moreover have "0 \<le> x mod M" "x mod M < M" using M by simp_all
    ultimately show "d - d mod M \<le> x \<and> x \<le> d - d mod M + M - 1"
      using e by linarith
  qed
qed

lemma day_range_iff:
  "(startOfDay d \<le> x \<and> x \<le> endOfDay d) = sameCalendarDay x d"
  unfolding startOfDay_def endOfDay_def sameCalendarDay_def
  by (rule day_range_gen) (simp add: msPerDay_def)

lemma day_range_conj:
  "(startOfDay d \<le> x \<and> x \<le> endOfDay d \<and> P) = (sameCalendarDay x d \<and> P)"
  using day_range_iff[of d x] by blast

lemma set_findActiveOnDay:
  "set (findActiveOnDay appts d) = {a \<in> set appts. sameCalendarDay (date a) d \<and> status a \<noteq> Cancelled}"
  by (simp add: findActiveOnDay_def day_range_conj)

lemma overlapTest_wf:
  assumes "wfTime t" "0 < duration" "wfTime (time a)" "0 < totalDuration a"
  shows "overlapTest (parseTime t) duration (parseTime (time a)) (totalDuration a)
         = intervalsOverlap t duration a"
proof -
  obtain s where s: "parseTime t = Some s" using wfTime_parseTime[OF assms(1)] by blast
  obtain b where b: "parseTime (time a) = Some b" using wfTime_parseTime[OF assms(3)] by blast
  show ?thesis
    using assms(2,4) by (simp add: s b overlapTest_iff intervalsOverlap_def minutesOf_def)
qed

text \<open>
  Claim C2. For a well-formed candidate time \<open>t\<close> and a duration \<open>d > 0\<close>, over stored
  appointments with well-formed times and positive durations, \<open>checkTimeConflict\<close> and
  \<open>verifyAppointmentAvailability\<close> report a conflict exactly when some appointment of the
  same calendar day that is not cancelled (and, for \<open>checkTimeConflict\<close>, is not the one
  excluded by its identifier) has \<open>t < s + dur\<close> and \<open>t + d > s\<close>. Intervals that only touch
  are therefore never reported.
\<close>

theorem conflict_check_iff_overlap:
  assumes "wfTime t" and "0 < duration"
    and "\<forall>a\<in>set appts. wfTime (time a) \<and> 0 < totalDuration a"
  shows "checkTimeConflict appts d t duration existingAppointmentId
           = (\<exists>a\<in>set appts. sameCalendarDay (date a) d \<and> status a \<noteq> Cancelled
                \<and> notExcluded existingAppointmentId a \<and> intervalsOverlap t duration a)
         \<and> conflictExists (verifyAppointmentAvailability appts d t duration)
           = (\<exists>a\<in>set appts. sameCalendarDay (date a) d \<and> status a \<noteq> Cancelled
                \<and> intervalsOverlap t duration a)"
proof -
  have ov: "\<And>a. a \<in> set appts \<Longrightarrow>
              overlapTest (parseTime t) duration (parseTime (time a)) (totalDuration a)
              = intervalsOverlap t duration a"
    using assms by (simp add: overlapTest_wf)
  have one: "checkTimeConflict appts d t duration existingAppointmentId
           = (\<exists>a\<in>set appts. sameCalendarDay (date a) d \<and> status a \<noteq> Cancelled
                \<and> notExcluded existingAppointmentId a \<and> intervalsOverlap t duration a)"
    using ov
    by (auto simp: checkTimeConflict_def Let_def conflictLoop_iff set_findActiveOnDay
                   notExcluded_def split: option.splits)
  have two: "conflictExists (verifyAppointmentAvailability appts d t duration)
           = (\<exists>a\<in>set appts. sameCalendarDay (date a) d \<and> status a \<noteq> Cancelled
                \<and> intervalsOverlap t duration a)"
    using ov
    by (auto simp: verifyAppointmentAvailability_def conflictLoop_iff set_findActiveOnDay)
  show ?thesis using one two by blast
qed

text \<open>
  The touching case: an appointment from 10:00 to 11:00 and a candidate that starts at 11:00.
\<close>

theorem conflict_check_iff_overlap_witness:
  "wfTime ''11:00'' \<and> (0::int) < 30
   \<and> list_all (\<lambda>a. wfTime (time a) \<and> 0 < totalDuration a)
         [exampleAppointment ''a1'' ''u1'' ''10:00'' 60 Pending]
   \<and> \<not> checkTimeConflict [exampleAppointment ''a1'' ''u1'' ''10:00'' 60 Pending]
           exampleDay ''11:00'' 30 None
   \<and> \<not> conflictExists (verifyAppointmentAvailability
           [exampleAppointment ''a1'' ''u1'' ''10:00'' 60 Pending] exampleDay ''11:00'' 30)"
proof -
  let ?s = "[exampleAppointment ''a1'' ''u1'' ''10:00'' 60 Pending]"
  have h1: "wfTime ''11:00''" by code_simp
  have h2: "(0::int) < 30" by simp
  have h3: "\<forall>a\<in>set ?s. wfTime (time a) \<and> 0 < totalDuration a" by code_simp
  have n1: "\<not> (\<exists>a\<in>set ?s. sameCalendarDay (date a) exampleDay \<and> status a \<noteq> Cancelled
            \<and> notExcluded None a \<and> intervalsOverlap ''11:00'' 30 a)" by code_simp
  have n2: "\<not> (\<exists>a\<in>set ?s. sameCalendarDay (date a) exampleDay \<and> status a \<noteq> Cancelled
            \<and> intervalsOverlap ''11:00'' 30 a)" by code_simp
  note c = conflict_check_iff_overlap[OF h1 h2 h3, of exampleDay None]
  have c1: "\<not> checkTimeConflict ?s exampleDay ''11:00'' 30 None"
    unfolding conjunct1[OF c] by (rule n1)
  have c2: "\<not> conflictExists (verifyAppointmentAvailability ?s exampleDay ''11:00'' 30)"
    unfolding conjunct2[OF c] by (rule n2)
  have h3': "list_all (\<lambda>a. wfTime (time a) \<and> 0 < totalDuration a) ?s"
    using h3 by (simp only: list_all_iff)
  show ?thesis
    by (intro conjI h1 h2 h3' c1 c2)
qed

section \<open>Facts about the store\<close>

lemma find_map_same:
  assumes "\<And>b. P (f b) = P b"
  shows "find P (map f xs) = map_option f (find P xs)"
  using assms by (induction xs) simp_all

lemma findById_appId: "findById store i = Some a \<Longrightarrow> appId a = i \<and> a \<in> set store"
  by (auto simp: findById_def find_Some_iff)

lemma upsert_present:
  assumes "findById store i = Some a" and "appId a' = i"
  shows "upsert store a' = map (\<lambda>b. if appId b = i then a' else b) store"
proof -
  have "list_ex (\<lambda>b. appId b = appId a') store"
    using findById_appId[OF assms(1)] assms(2) by (auto simp: list_ex_iff)
  then show ?thesis by (simp add: upsert_def assms(2))
qed

lemma findById_replaced:
  assumes "findById store i = Some a" and "appId a' = i"
  shows "findById (map (\<lambda>b. if appId b = i then a' else b) store) i = Some a'"
proof -
  have "find (\<lambda>b. appId b = i) (map (\<lambda>b. if appId b = i then a' else b) store)
        = map_option (\<lambda>b. if appId b = i then a' else b) (find (\<lambda>b. appId b = i) store)"
    by (rule find_map_same) (simp add: assms(2))
  then show ?thesis
    using assms findById_appId[OF assms(1)] by (simp add: findById_def)
qed

lemma save_Inr:
  assumes "save now store c = Inr (store', saved)"
  shows "saved = c\<lparr>version := version c + 1, updatedAt := Some now\<rparr> \<and> store' = upsert store saved"
  using assms by (auto simp: save_def Let_def split: if_splits)

section \<open>What a cancellation changes\<close>

lemma cancel_Inr:
  assumes "cancelAppointment reqUser i reason now store = Inr (store', late)"
  shows "\<exists>a. findById store i = Some a
           \<and> findById store' i =
               Some (a\<lparr>status := Cancelled,
                       cancellationReason := Some (orElse reason ''Cancelado por el usuario''),
                       cancelledAt := Some now,
                       version := version a + 1, updatedAt := Some now\<rparr>)
           \<and> store' = map (\<lambda>b. if appId b = i
                                 then a\<lparr>status := Cancelled,
                                        cancellationReason :=
                                          Some (orElse reason ''Cancelado por el usuario''),
                                        cancelledAt := Some now,
                                        version := version a + 1, updatedAt := Some now\<rparr>
                                 else b) store"
proof -
  from assms obtain a where a: "findById store i = Some a"
    by (cases "findById store i") (simp_all add: cancelAppointment_def)
  define c where "c = a\<lparr>status := Cancelled,
                         cancellationReason := Some (orElse reason ''Cancelado por el usuario''),
                         cancelledAt := Some now\<rparr>"
  from assms a obtain saved where s: "save now store c = Inr (store', saved)"
    by (auto simp: cancelAppointment_def Let_def c_def split: if_splits sum.splits)
  from save_Inr[OF s] have saved: "saved = c\<lparr>version := version c + 1, updatedAt := Some now\<rparr>"
    and st: "store' = upsert store saved" by simp_all
  have idn: "appId saved = i" using findById_appId[OF a] by (simp add: saved c_def)
  have m: "store' = map (\<lambda>b. if appId b = i then saved else b) store"
    using upsert_present[OF a idn] st by simp
  have f: "findById store' i = Some saved"
    unfolding m by (rule findById_replaced[OF a idn])
  show ?thesis
    using a f m by (intro exI[of _ a]) (simp add: saved c_def)
qed

text \<open>
  Claim C10. A successful \<open>cancelAppointment\<close> replaces the documents with the given
  identifier by one document and leaves every other document as it was; the new document is
  \<open>cancelled\<close> and has the identifier, user, services, date, time, total duration, notes,
  reminder flag, reminder time and creation time of the old one. Only the status, the
  cancellation reason, the cancellation time, \<open>updatedAt\<close> and \<open>version\<close> can differ.
\<close>

theorem cancel_changes_only_cancellation_fields:
  assumes "cancelAppointment reqUser i reason now store = Inr (store', late)"
  shows "\<exists>a a'. findById store i = Some a \<and> findById store' i = Some a'
           \<and> store' = map (\<lambda>b. if appId b = i then a' else b) store
           \<and> status a' = Cancelled
           \<and> appId a' = appId a \<and> user a' = user a \<and> services a' = services a
           \<and> date a' = date a \<and> time a' = time a \<and> totalDuration a' = totalDuration a
           \<and> notes' a' = notes' a \<and> reminderSent a' = reminderSent a
           \<and> reminderSentAt a' = reminderSentAt a \<and> createdAt a' = createdAt a"
proof -
  from cancel_Inr[OF assms] obtain a where
    a: "findById store i = Some a"
    and f: "findById store' i =
               Some (a\<lparr>status := Cancelled,
                       cancellationReason := Some (orElse reason ''Cancelado por el usuario''),
                       cancelledAt := Some now,
                       version := version a + 1, updatedAt := Some now\<rparr>)"
    and m: "store' = map (\<lambda>b. if appId b = i
                                 then a\<lparr>status := Cancelled,
                                        cancellationReason :=
                                          Some (orElse reason ''Cancelado por el usuario''),
                                        cancelledAt := Some now,
                                        version := version a + 1, updatedAt := Some now\<rparr>
                                 else b) store"
    by blast
  show ?thesis
    apply (rule exI[of _ a])
    apply (rule exI[of _ "a\<lparr>status := Cancelled,
                       cancellationReason := Some (orElse reason ''Cancelado por el usuario''),
                       cancelledAt := Some now,
                       version := version a + 1, updatedAt := Some now\<rparr>"])
    using a f m by simp
qed

text \<open>The owner cancels the first of two appointments three days ahead.\<close>

theorem cancel_changes_only_cancellation_fields_witness:
  "cancelAppointment (Some \<lparr>id' = ''u1'', role = ''user''\<rparr>) ''a1'' None exampleNow
     [exampleAppointment ''a1'' ''u1'' ''10:00'' 60 Pending,
      exampleAppointment ''a2'' ''u2'' ''11:00'' 30 Confirmed]
   = Inr ([(exampleAppointment ''a1'' ''u1'' ''10:00'' 60 Cancelled)
             \<lparr>cancellationReason := Some ''Cancelado por el usuario'',
              cancelledAt := Some exampleNow, updatedAt := Some exampleNow, version := 1\<rparr>,
           exampleAppointment ''a2'' ''u2'' ''11:00'' 30 Confirmed], False)
   \<and> (\<exists>a'. findById [(exampleAppointment ''a1'' ''u1'' ''10:00'' 60 Cancelled)
             \<lparr>cancellationReason := Some ''Cancelado por el usuario'',
              cancelledAt := Some exampleNow, updatedAt := Some exampleNow, version := 1\<rparr>,
           exampleAppointment ''a2'' ''u2'' ''11:00'' 30 Confirmed] ''a1'' = Some a'
         \<and> status a' = Cancelled \<and> date a' = exampleDay \<and> time a' = ''10:00'')"
proof -
  let ?store = "[exampleAppointment ''a1'' ''u1'' ''10:00'' 60 Pending,
      exampleAppointment ''a2'' ''u2'' ''11:00'' 30 Confirmed]"
  let ?store' = "[(exampleAppointment ''a1'' ''u1'' ''10:00'' 60 Cancelled)
             \<lparr>cancellationReason := Some ''Cancelado por el usuario'',
              cancelledAt := Some exampleNow, updatedAt := Some exampleNow, version := 1\<rparr>,
           exampleAppointment ''a2'' ''u2'' ''11:00'' 30 Confirmed]"
  have run: "cancelAppointment (Some \<lparr>id' = ''u1'', role = ''user''\<rparr>) ''a1'' None exampleNow ?store
             = Inr (?store', False)"
    by code_simp
  have old: "findById ?store ''a1'' = Some (exampleAppointment ''a1'' ''u1'' ''10:00'' 60 Pending)"
    by code_simp
  from cancel_changes_only_cancellation_fields[OF run] old
  have "\<exists>a'. findById ?store' ''a1'' = Some a'
         \<and> status a' = Cancelled \<and> date a' = exampleDay \<and> time a' = ''10:00''"
    by (auto simp: exampleAppointment_def)
  with run show ?thesis by (intro conjI)
qed

section \<open>The permission check of the controller\<close>

text \<open>
  Claim C7. A superadmin who is not the owner passes the middleware \<open>isAppointmentOwner\<close>
  of the route, which admits the roles \<open>admin\<close> and \<open>superadmin\<close>, and is then refused by
  \<open>cancelAppointment\<close>, whose own test knows the role \<open>admin\<close> only.
\<close>

theorem cancel_rejects_superadmin:
  "isAppointmentOwner (Some \<lparr>id' = ''u2'', role = ''superadmin''\<rparr>) ''a1''
     [exampleAppointment ''a1'' ''u1'' ''10:00'' 60 Pending] = None
   \<and> cancelAppointment (Some \<lparr>id' = ''u2'', role = ''superadmin''\<rparr>) ''a1'' None exampleNow
       [exampleAppointment ''a1'' ''u1'' ''10:00'' 60 Pending] = Inl NoPermission"
  by code_simp

text \<open>In general the controller refuses whoever is neither the owner nor an \<open>admin\<close>.\<close>

lemma cancel_permission:
  assumes "findById store i = Some a"
  shows "(cancelAppointment reqUser i reason now store = Inl NoPermission)
         = (\<not> (\<exists>u. reqUser = Some u \<and> (user a = id' u \<or> role u = ''admin'')))"
  using assms
  by (auto simp: cancelAppointment_def permissionDenied_def Let_def
           split: option.splits sum.splits)

section \<open>The unique index\<close>

text \<open>
  Claim C1. The index \<open>date_time_status_unique\<close> has the status in its key. After a pending
  appointment is stored at 11:00, a second pending one at the same date and time is refused
  as a duplicate, but a confirmed one (the status a relocated appointment is created with) is
  stored: two appointments that are not cancelled then share the date and the time.
\<close>

theorem unique_index_admits_two_statuses:
  "(case save exampleNow [] (exampleAppointment ''a1'' ''u1'' ''11:00'' 30 Pending) of
      Inl e \<Rightarrow> False
    | Inr (s1, a1) \<Rightarrow>
        save exampleNow s1 (exampleAppointment ''a2'' ''u2'' ''11:00'' 30 Pending) = Inl DuplicateKey
        \<and> (case save exampleNow s1 (exampleAppointment ''a2'' ''u2'' ''11:00'' 30 Confirmed) of
              Inl e \<Rightarrow> False
            | Inr (s2, a2) \<Rightarrow>
                map (\<lambda>a. (appId a, date a, time a, status a)) s2
                = [(''a1'', exampleDay, ''11:00'', Pending),
                   (''a2'', exampleDay, ''11:00'', Confirmed)]))"
  by code_simp

section \<open>Date validation on the current day\<close>

text \<open>
  Claim C6. At noon of the tenth of June 2024 a request for that day (its midnight) passes
  the check against past dates and is then refused by \<open>isDateInRange\<close>, which compares with
  the current moment and not with the current day; \<open>createAppointment\<close> answers with the
  error of the booking horizon.
\<close>

theorem today_rejected_by_range_check:
  "validateDate (exampleDay + 43200000) exampleDay = Some BeyondBookingRange
   \<and> createAppointment
        ((exampleEnv \<lparr>regularHours = everyDay openMorning, specialDays = []\<rparr>)
           \<lparr>envNow := exampleDay + 43200000\<rparr>)
        (Some \<lparr>id' = ''u1'', role = ''user''\<rparr>) (Some [''s1'']) exampleDay ''10:00'' None []
      = Inl BeyondBookingRange"
  by code_simp

text \<open>The same holds at every moment that is not itself a midnight.\<close>

lemma today_rejected_after_midnight:
  assumes "now mod msPerDay \<noteq> 0"
  shows "validateDate now (startOfDay now) = Some BeyondBookingRange"
proof -
  have "0 \<le> now mod msPerDay" by (simp add: msPerDay_def)
  with assms have "startOfDay now < now" by (simp add: startOfDay_def)
  then show ?thesis
    by (simp add: validateDate_def isDateInRange_def Let_def)
qed

section \<open>Relocation across the midday closure\<close>

text \<open>
  Claim C3. On a day open from 09:00 to 13:00 and from 16:00 to 20:00, with one appointment
  from 11:30 to 12:00, a candidate of 60 minutes at 11:30 is in conflict, and the search
  returns 12:30 on the same day: the service would end at 13:30, after the morning has closed
  and before the afternoon opens, so it lies within neither half of the day.
\<close>

theorem relocation_spans_midday_closure:
  "conflictExists (verifyAppointmentAvailability
      [exampleAppointment ''a1'' ''u1'' ''11:30'' 30 Pending] exampleDay ''11:30'' 60)
   \<and> findNextAvailableSlot
        (Some \<lparr>regularHours = everyDay closedDay, specialDays = [special 0 openSplit]\<rparr>)
        [exampleAppointment ''a1'' ''u1'' ''11:30'' 30 Pending] exampleDay ''11:30'' 60 7
      = Some \<lparr>slotDate = exampleDay, slotTime = ''12:30''\<rparr>
   \<and> \<not> fitsSingleInterval openSplit ''12:30'' 60"
  by code_simp

text \<open>
  The marks of an appointment are spaced from its own start. An appointment at 10:15 marks
  10:15 only, and the search returns 10:00 for a service of 30 minutes, which overlaps it.
\<close>

lemma relocation_overlaps_off_grid_appointment:
  "findNextAvailableSlot
     (Some \<lparr>regularHours = everyDay closedDay, specialDays = [special 0 openMorning]\<rparr>)
     [exampleAppointment ''a1'' ''u1'' ''09:00'' 30 Pending,
      exampleAppointment ''a2'' ''u2'' ''10:15'' 30 Pending] exampleDay ''09:00'' 30 7
   = Some \<lparr>slotDate = exampleDay, slotTime = ''10:00''\<rparr>
   \<and> intervalsOverlap ''10:00'' 30 (exampleAppointment ''a2'' ''u2'' ''10:15'' 30 Pending)"
  by code_simp

section \<open>Relocation under the weekly hours\<close>

text \<open>
  Claim C4. The tenth of June 2024 is a Monday. With weekly hours from 09:00 to 13:00 on every
  day and no special day, one appointment from 10:00 to 11:00 and a request of 30 minutes at
  10:00, the search looks the weekly entry up under the English name of the day, finds
  nothing under it (the keys are Spanish, and \<open>normalizeDayName\<close> finds the entry), and
  returns \<^verbatim>\<open>null\<close> instead of 11:00.
\<close>

theorem relocation_fails_under_weekly_hours:
  "formatEEEE exampleDay = ''monday''
   \<and> lookupDay (everyDay openMorning) (formatEEEE exampleDay) = None
   \<and> lookupDay (everyDay openMorning) (normalizeDayName exampleDay) = Some openMorning
   \<and> findNextAvailableSlot
        (Some \<lparr>regularHours = everyDay openMorning, specialDays = []\<rparr>)
        [exampleAppointment ''a1'' ''u1'' ''10:00'' 60 Pending] exampleDay ''10:00'' 30 7
      = None"
  by code_simp

text \<open>When the same hours come from a special day, the search returns 11:00.\<close>

lemma relocation_under_special_day:
  "findNextAvailableSlot
     (Some \<lparr>regularHours = everyDay openMorning, specialDays = [special 0 openMorning]\<rparr>)
     [exampleAppointment ''a1'' ''u1'' ''10:00'' 60 Pending] exampleDay ''10:00'' 30 7
   = Some \<lparr>slotDate = exampleDay, slotTime = ''11:00''\<rparr>"
  by code_simp

text \<open>No day has a weekly entry under its English name.\<close>

lemma lookupDay_formatEEEE: "lookupDay rh (formatEEEE d) = None"
  by (simp add: lookupDay_def formatEEEE_def Let_def)

section \<open>The horizon of the relocation search\<close>

lemma upToTwoDigits_two:
  "isDigit a \<Longrightarrow> isDigit b \<Longrightarrow> upToTwoDigits (a # b # rest) = [a, b]"
  by (simp add: upToTwoDigits_def)

lemma digitVal_bounds: "isDigit c \<Longrightarrow> 0 \<le> digitVal c \<and> digitVal c \<le> 9"
  by (auto simp: isDigit_def digits_def digitVal_def)

lemma digitVal_small:
  "c \<in> set ''012345'' \<Longrightarrow> digitVal c \<le> 5"
  "c \<in> set ''01'' \<Longrightarrow> digitVal c \<le> 1"
  "c \<in> set ''0123'' \<Longrightarrow> digitVal c \<le> 3"
  "digitVal CHR ''2'' = 2"
  by (auto simp: digits_def digitVal_def)

lemma wfTime_parse:
  assumes "wfTime t"
  shows "parseTime t = Some (minutesOf t) \<and> parseHHmm t = Some (minutesOf t)"
proof -
  from wfTime_shape[OF assms] obtain a b d e where t: "t = [a, b, CHR '':'', d, e]"
    and dig: "isDigit a" "isDigit b" "isDigit d" "isDigit e"
    by blast
  have sp: "splitColon t = [[a, b], [d, e]]"
    unfolding t using dig by (intro splitColon_wf isDigit_not_colon)
  have pt: "parseTime t = Some ((digitVal a * 10 + digitVal b) * 60 + (digitVal d * 10 + digitVal e))"
    using dig sp by (simp add: parseTime_def Number_str_def)
  have shape: "((a \<in> set ''01'' \<and> isDigit b) \<or> (a = CHR ''2'' \<and> b \<in> set ''0123''))
               \<and> d \<in> set ''012345''"
    using assms unfolding t wfTime_def by simp
  have hh: "digitVal a * 10 + digitVal b \<le> 23"
    using shape digitVal_small(2)[of a] digitVal_small(3)[of b] digitVal_small(4)
          digitVal_bounds[of b] by fastforce
  have mm: "digitVal d * 10 + digitVal e \<le> 59"
    using shape digitVal_small(1)[of d] digitVal_bounds[OF dig(4)] by linarith
  have h: "upToTwoDigits t = [a, b]"
    unfolding t using dig(1,2) by (rule upToTwoDigits_two)
  have m: "upToTwoDigits [d, e] = [d, e]"
    using dig(3,4) by (rule upToTwoDigits_two)
  have "parseHHmm t = Some ((digitVal a * 10 + digitVal b) * 60 + (digitVal d * 10 + digitVal e))"
    unfolding parseHHmm_def h Let_def
    using dig hh mm m by (simp add: t Number_str_def)
  with pt show ?thesis by (simp add: minutesOf_def)
qed

lemma slotLoop_mem:
  "t \<in> set (slotLoop s e) \<Longrightarrow> \<exists>k::nat. t = formatMinutes (s + 30 * int k) \<and> s + 30 * int k < e"
proof (induction s e rule: slotLoop.induct)
  case (1 currentSlot endT)
  show ?case
  proof (cases "currentSlot < endT")
    case False
    with 1(2) show ?thesis by (simp add: slotLoop.simps[of currentSlot endT])
  next
    case True
    with 1(2) have "t = formatMinutes currentSlot \<or> t \<in> set (slotLoop (currentSlot + 30) endT)"
      by (simp add: slotLoop.simps[of currentSlot endT])
    then show ?thesis
    proof
      assume "t = formatMinutes currentSlot"
      with True have "t = formatMinutes (currentSlot + 30 * int 0) \<and> currentSlot + 30 * int 0 < endT"
        by simp
      then show ?thesis by blast
    next
      assume "t \<in> set (slotLoop (currentSlot + 30) endT)"
      from 1(1)[OF True this] obtain k :: nat where
        k: "t = formatMinutes (currentSlot + 30 + 30 * int k)" "currentSlot + 30 + 30 * int k < endT"
        by blast
      have "currentSlot + 30 + 30 * int k = currentSlot + 30 * int (Suc k)" by simp
      with k have "t = formatMinutes (currentSlot + 30 * int (Suc k))
                   \<and> currentSlot + 30 * int (Suc k) < endT"
        by simp
      then show ?thesis by blast
    qed
  qed
qed

lemma bookedLoop_mem:
  "s + 30 * int k < e \<Longrightarrow> formatMinutes (s + 30 * int k) \<in> set (bookedLoop s e)"
proof (induction k arbitrary: s)
  case 0
  then show ?case by (simp add: bookedLoop.simps[of s e])
next
  case (Suc k)
  have eq: "s + 30 * int (Suc k) = s + 30 + 30 * int k" by simp
  from Suc.prems have "s + 30 + 30 * int k < e" by simp
  from Suc.IH[OF this] have "formatMinutes (s + 30 * int (Suc k)) \<in> set (bookedLoop (s + 30) e)"
    by (simp only: eq)
  moreover have "s < e" using Suc.prems by simp
  ultimately show ?case by (simp add: bookedLoop.simps[of s e])
qed

lemma bookedTimes_mem:
  assumes "a \<in> set as" "parseTime (time a) = Some s" "s + 30 * int k < s + totalDuration a"
  shows "formatMinutes (s + 30 * int k) \<in> set (bookedTimes as)"
proof -
  have "formatMinutes (s + 30 * int k) \<in> set (bookedLoop s (s + totalDuration a))"
    using assms(3) by (rule bookedLoop_mem)
  with assms(1,2) show ?thesis
    by (auto simp: bookedTimes_def intro!: bexI[of _ a])
qed

lemma halfDayTimes_booked:
  assumes t: "t \<in> set (halfDayTimes opening closing)"
    and wf: "wfField opening" "wfField closing"
    and full: "list_all (\<lambda>(opn, cls). list_all (occupiedAt appts d) [opn..cls - 1])
                 (openInterval opening closing)"
    and grid: "list_all (\<lambda>a. sameCalendarDay (date a) d \<and> status a \<noteq> Cancelled
                   \<longrightarrow> list_all (\<lambda>(opn, cls). (minutesOf (time a) - opn) mod 30 = 0)
                                 (openInterval opening closing)) appts"
    and times: "\<forall>a\<in>set appts. wfTime (time a)"
  shows "t \<in> set (bookedTimes (findActiveOnDay appts d))"
proof -
  have "\<exists>opn cls. opening = Some opn \<and> closing = Some cls \<and> opn \<noteq> [] \<and> cls \<noteq> []"
  proof (rule ccontr)
    assume "\<not> (\<exists>opn cls. opening = Some opn \<and> closing = Some cls \<and> opn \<noteq> [] \<and> cls \<noteq> [])"
    then have "halfDayTimes opening closing = []"
      by (cases "opening"; cases "closing") (auto simp: halfDayTimes_def)
    with t show False by simp
  qed
  then obtain opn cls where oc: "opening = Some opn" "closing = Some cls" "opn \<noteq> []" "cls \<noteq> []"
    by blast
  with wf have w: "wfTime opn" "wfTime cls" by (simp_all add: wfField_def)
  have p: "parseHHmm opn = Some (minutesOf opn)" "parseHHmm cls = Some (minutesOf cls)"
    using wfTime_parse w by blast+
  define lo where "lo = minutesOf opn"
  define hi where "hi = minutesOf cls"
  have "t \<in> set (slotLoop lo hi)"
    using t oc p by (simp add: halfDayTimes_def lo_def hi_def)
  from slotLoop_mem[OF this] obtain k :: nat where
    k: "t = formatMinutes (lo + 30 * int k)" "lo + 30 * int k < hi"
    by blast
  have iv: "openInterval opening closing = [(lo, hi)]"
    using oc by (simp add: openInterval_def lo_def hi_def)
  have "lo + 30 * int k \<in> set [lo..hi - 1]" using k(2) by simp
  with full have "occupiedAt appts d (lo + 30 * int k)"
    unfolding iv by (simp add: list_all_iff)
  then obtain a where a: "a \<in> set appts" "sameCalendarDay (date a) d" "status a \<noteq> Cancelled"
      "minutesOf (time a) \<le> lo + 30 * int k"
      "lo + 30 * int k < minutesOf (time a) + totalDuration a"
    unfolding occupiedAt_def list_ex_iff by blast
  define s where "s = minutesOf (time a)"
  have ps: "parseTime (time a) = Some s"
    using wfTime_parse times a(1) by (simp add: s_def)
  have g: "(s - lo) mod 30 = 0"
    using grid a(1,2,3) unfolding iv by (simp add: list_all_iff s_def)
  define x where "x = lo + 30 * int k - s"
  have "x mod 30 = 0"
    using g unfolding x_def by presburger
  then have x30: "x = 30 * (x div 30)" by presburger
  have "0 \<le> x" using a(4) by (simp add: s_def x_def)
  then have "0 \<le> x div 30" by (simp add: pos_imp_zdiv_nonneg_iff)
  then have "x div 30 = int (nat (x div 30))" by simp
  with x30 have "x = 30 * int (nat (x div 30))" by simp
  then obtain j :: nat where j: "lo + 30 * int k - s = 30 * int j"
    unfolding x_def ..
  then have eq: "lo + 30 * int k = s + 30 * int j" by simp
  have "s + 30 * int j < s + totalDuration a" using a(5) eq by (simp add: s_def)
  moreover have "a \<in> set (findActiveOnDay appts d)"
    using a(1,2,3) by (simp add: set_findActiveOnDay)
  ultimately have "formatMinutes (s + 30 * int j) \<in> set (bookedTimes (findActiveOnDay appts d))"
    using ps by (intro bookedTimes_mem)
  then show ?thesis by (simp add: k(1) eq)
qed

lemma availableTimes_booked:
  assumes "wfDaily ds" "fullyBooked ds appts d" "onSlotGrid ds appts d"
    "\<forall>a\<in>set appts. wfTime (time a)" "t \<in> set (availableTimes ds)"
  shows "t \<in> set (bookedTimes (findActiveOnDay appts d))"
proof -
  from assms(5) consider "t \<in> set (halfDayTimes (openingAM ds) (closingAM ds))"
    | "t \<in> set (halfDayTimes (openingPM ds) (closingPM ds))"
    by (auto simp: availableTimes_def)
  then show ?thesis
  proof cases
    case 1
    show ?thesis
    proof (rule halfDayTimes_booked[OF 1])
      show "wfField (openingAM ds)" "wfField (closingAM ds)"
        using assms(1) by (simp_all add: wfDaily_def)
      show "list_all (\<lambda>(opn, cls). list_all (occupiedAt appts d) [opn..cls - 1])
              (openInterval (openingAM ds) (closingAM ds))"
        using assms(2) by (simp add: fullyBooked_def openIntervals_def)
      show "list_all (\<lambda>a. sameCalendarDay (date a) d \<and> status a \<noteq> Cancelled
                   \<longrightarrow> list_all (\<lambda>(opn, cls). (minutesOf (time a) - opn) mod 30 = 0)
                                 (openInterval (openingAM ds) (closingAM ds))) appts"
        using assms(3) by (simp add: onSlotGrid_def openIntervals_def list_all_iff)
      show "\<forall>a\<in>set appts. wfTime (time a)" by (rule assms(4))
    qed
  next
    case 2
    show ?thesis
    proof (rule halfDayTimes_booked[OF 2])
      show "wfField (openingPM ds)" "wfField (closingPM ds)"
        using assms(1) by (simp_all add: wfDaily_def)
      show "list_all (\<lambda>(opn, cls). list_all (occupiedAt appts d) [opn..cls - 1])
              (openInterval (openingPM ds) (closingPM ds))"
        using assms(2) by (simp add: fullyBooked_def openIntervals_def)
      show "list_all (\<lambda>a. sameCalendarDay (date a) d \<and> status a \<noteq> Cancelled
                   \<longrightarrow> list_all (\<lambda>(opn, cls). (minutesOf (time a) - opn) mod 30 = 0)
                                 (openInterval (openingPM ds) (closingPM ds))) appts"
        using assms(3) by (simp add: onSlotGrid_def openIntervals_def list_all_iff)
      show "\<forall>a\<in>set appts. wfTime (time a)" by (rule assms(4))
    qed
  qed
qed

lemma searchDay_blocked:
  assumes "closedOrFullyBooked sch appts (addDays d off)" "wfDay sch appts (addDays d off)"
    "\<forall>a\<in>set appts. wfTime (time a)"
  shows "searchDay sch appts d ct duration off = Inr None
         \<or> (\<exists>e. searchDay sch appts d ct duration off = Inl e)"
proof (cases "findSpecialDay sch (addDays d off)")
  case None
  then show ?thesis
    by (simp add: searchDay_def Let_def lookupDay_formatEEEE)
next
  case (Some sd)
  show ?thesis
  proof (cases "closed (specialSchedule sd)")
    case True
    with Some show ?thesis by (simp add: searchDay_def Let_def)
  next
    case False
    with Some assms(1) have full: "fullyBooked (specialSchedule sd) appts (addDays d off)"
      by (simp add: closedOrFullyBooked_def)
    from Some assms(2) have wf: "wfDaily (specialSchedule sd)"
        "onSlotGrid (specialSchedule sd) appts (addDays d off)"
      by (simp_all add: wfDay_def scheduleOfDay_def)
    have "\<forall>t\<in>set (availableTimes (specialSchedule sd)).
                 t \<in> set (bookedTimes (findActiveOnDay appts (addDays d off)))"
      using availableTimes_booked[OF wf(1) full wf(2) assms(3)] by blast
    with Some False show ?thesis
      by (auto simp: searchDay_def Let_def filter_empty_conv)
  qed
qed

lemma searchDays_blocked:
  assumes "\<forall>k<n. closedOrFullyBooked sch appts (addDays d (off + int k))
                 \<and> wfDay sch appts (addDays d (off + int k))"
    "\<forall>a\<in>set appts. wfTime (time a)"
  shows "searchDays sch appts d ct duration n off = Inr None
         \<or> (\<exists>e. searchDays sch appts d ct duration n off = Inl e)"
  using assms(1)
proof (induction n arbitrary: off)
  case 0
  then show ?case by simp
next
  case (Suc n)
  have first: "closedOrFullyBooked sch appts (addDays d off)" "wfDay sch appts (addDays d off)"
    using Suc.prems by (metis of_nat_0 add.right_neutral zero_less_Suc)+
  have rest: "\<forall>k<n. closedOrFullyBooked sch appts (addDays d (off + 1 + int k))
                    \<and> wfDay sch appts (addDays d (off + 1 + int k))"
  proof (intro allI impI)
    fix k assume "k < n"
    then have "closedOrFullyBooked sch appts (addDays d (off + int (Suc k)))
               \<and> wfDay sch appts (addDays d (off + int (Suc k)))"
      using Suc.prems by (metis Suc_less_eq)
    then show "closedOrFullyBooked sch appts (addDays d (off + 1 + int k))
               \<and> wfDay sch appts (addDays d (off + 1 + int k))"
      by (simp add: add.assoc)
  qed
  from searchDay_blocked[OF first assms(2), of ct duration] Suc.IH[OF rest]
  show ?case by auto
qed

lemma firstFit_date:
  "firstFit ds booked currentDate duration ts = Some s \<Longrightarrow> slotDate s = currentDate"
  by (induction ts) (auto simp: Let_def split: option.splits if_splits)

lemma searchDay_date:
  "searchDay sch appts d ct duration off = Inr (Some s) \<Longrightarrow> slotDate s = addDays d off"
  by (auto simp: searchDay_def Let_def dest: firstFit_date
           split: option.splits if_splits sum.splits)

lemma searchDays_date:
  "searchDays sch appts d ct duration n off = Inr (Some s)
   \<Longrightarrow> \<exists>k<n. slotDate s = addDays d (off + int k)"
proof (induction n arbitrary: off)
  case 0
  then show ?case by simp
next
  case (Suc n)
  show ?case
  proof (cases "searchDay sch appts d ct duration off")
    case (Inl e)
    with Suc.prems show ?thesis by simp
  next
    case (Inr r)
    show ?thesis
    proof (cases r)
      case None
      with Inr Suc.prems have "searchDays sch appts d ct duration n (off + 1) = Inr (Some s)"
        by simp
      from Suc.IH[OF this] obtain k where k: "k < n" "slotDate s = addDays d (off + 1 + int k)"
        by blast
      then have "Suc k < Suc n \<and> slotDate s = addDays d (off + int (Suc k))"
        by (simp add: add.assoc)
      then show ?thesis by blast
    next
      case (Some s')
      with Inr Suc.prems have "s' = s" by simp
      with Inr Some have "slotDate s = addDays d off" by (simp add: searchDay_date)
      then have "0 < Suc n \<and> slotDate s = addDays d (off + int 0)" by simp
      then show ?thesis by blast
    qed
  qed
qed

lemma findNextAvailableSlot_horizon:
  assumes "findNextAvailableSlot sched appts d t duration maxDays = Some s"
  shows "\<exists>off\<le>maxDays. slotDate s = addDays d (int off)"
proof -
  define ct where
    "ct = (case parseTime t of Some hm \<Rightarrow> Some (addMinutes (setHours d hm) 30) | None \<Rightarrow> None)"
  from assms obtain sch where sch: "sched = Some sch"
    by (cases sched) (simp_all add: findNextAvailableSlot_def Let_def)
  have "findNextAvailableSlot (Some sch) appts d t duration maxDays
        = (case searchDays sch appts d ct duration (Suc maxDays) 0 of
             Inl e \<Rightarrow> None
           | Inr r \<Rightarrow> r)"
    by (simp add: findNextAvailableSlot_def Let_def ct_def del: searchDays.simps)
  with assms sch have "searchDays sch appts d ct duration (Suc maxDays) 0 = Inr (Some s)"
    by (simp split: sum.splits del: searchDays.simps)
  from searchDays_date[OF this] obtain k where "k < Suc maxDays" "slotDate s = addDays d (int k)"
    by auto
  then have "k \<le> maxDays \<and> slotDate s = addDays d (int k)" by simp
  then show ?thesis by blast
qed

lemma findNextAvailableSlot_blocked:
  assumes "\<forall>off. off \<le> maxDays \<longrightarrow> closedOrFullyBooked sch appts (addDays d (int off))
                                   \<and> wfDay sch appts (addDays d (int off))"
    "\<forall>a\<in>set appts. wfTime (time a)"
  shows "findNextAvailableSlot (Some sch) appts d t duration maxDays = None"
proof -
  define ct where
    "ct = (case parseTime t of Some hm \<Rightarrow> Some (addMinutes (setHours d hm) 30) | None \<Rightarrow> None)"
  have "\<forall>k<Suc maxDays. closedOrFullyBooked sch appts (addDays d (0 + int k))
                        \<and> wfDay sch appts (addDays d (0 + int k))"
    using assms(1) by simp
  then have r: "searchDays sch appts d ct duration (Suc maxDays) 0 = Inr None
           \<or> (\<exists>e. searchDays sch appts d ct duration (Suc maxDays) 0 = Inl e)"
    using assms(2) by (rule searchDays_blocked)
  have "findNextAvailableSlot (Some sch) appts d t duration maxDays
        = (case searchDays sch appts d ct duration (Suc maxDays) 0 of
             Inl e \<Rightarrow> None
           | Inr r \<Rightarrow> r)"
    by (simp add: findNextAvailableSlot_def Let_def ct_def del: searchDays.simps)
  with r show ?thesis
    by (auto simp del: searchDays.simps)
qed

text \<open>
  Claim C5, as the code has it. The loop runs for the day offsets 0 to \<open>maxDays\<close>, both
  included: eight days for the default of seven. A slot that \<open>findNextAvailableSlot\<close>
  returns lies on one of these days, so the search never looks further than \<open>maxDays\<close>
  days ahead. When each of these days is closed or fully booked, it returns \<^verbatim>\<open>null\<close>;
  this is stated for a date at midnight, for times of the shape \<open>HH:MM\<close> (of the
  request, of the schedule and of the appointments) and for appointments that start on the
  half-hour grid of their day. \<open>findNextAvailableSlot\<close> is a
  total function: every loop of it is defined with a measure that decreases, and its
  exceptions end in the \<^verbatim>\<open>catch\<close> that returns \<^verbatim>\<open>null\<close>.
\<close>

theorem exhausted_window_returns_null:
  assumes "wfTime t"
  shows "(\<forall>s. findNextAvailableSlot sched appts d t duration maxDays = Some s
              \<longrightarrow> (\<exists>off\<le>maxDays. slotDate s = addDays d (int off)))
         \<and> (d mod msPerDay = 0
              \<and> (\<forall>a\<in>set appts. wfTime (time a))
              \<and> (\<forall>off. off \<le> maxDays \<longrightarrow> wfDay sch appts (addDays d (int off))
                                   \<and> closedOrFullyBooked sch appts (addDays d (int off)))
            \<longrightarrow> findNextAvailableSlot (Some sch) appts d t duration maxDays = None)"
proof (intro conjI allI impI)
  fix s
  assume "findNextAvailableSlot sched appts d t duration maxDays = Some s"
  then show "\<exists>off\<le>maxDays. slotDate s = addDays d (int off)"
    by (rule findNextAvailableSlot_horizon)
next
  assume h: "d mod msPerDay = 0
        \<and> (\<forall>a\<in>set appts. wfTime (time a))
        \<and> (\<forall>off. off \<le> maxDays \<longrightarrow> wfDay sch appts (addDays d (int off))
                                   \<and> closedOrFullyBooked sch appts (addDays d (int off)))"
  then have "\<forall>off. off \<le> maxDays \<longrightarrow> closedOrFullyBooked sch appts (addDays d (int off))
                                   \<and> wfDay sch appts (addDays d (int off))"
    by blast
  moreover from h have "\<forall>a\<in>set appts. wfTime (time a)" by blast
  ultimately show "findNextAvailableSlot (Some sch) appts d t duration maxDays = None"
    by (rule findNextAvailableSlot_blocked)
qed

text \<open>
  Day 0 is fully booked and the seven days after it are closed: the search returns
  \<^verbatim>\<open>null\<close>. With day 7 open and ten days to search, the slot returned lies on day 7.
\<close>

theorem exhausted_window_returns_null_witness:
  "wfTime ''10:00''
   \<and> findNextAvailableSlot (Some reopensOnDay7) fullMorning exampleDay ''10:00'' 30 10
     = Some \<lparr>slotDate = addDays exampleDay 7, slotTime = ''09:00''\<rparr>
   \<and> (\<exists>off\<le>10. addDays exampleDay 7 = addDays exampleDay (int off))
   \<and> exampleDay mod msPerDay = 0
   \<and> list_all (\<lambda>a. wfTime (time a)) fullMorning
   \<and> list_all (\<lambda>off. wfDay (closedAfterToday 7) fullMorning (addDays exampleDay (int off))
                      \<and> closedOrFullyBooked (closedAfterToday 7) fullMorning
                           (addDays exampleDay (int off))) [0, 1, 2, 3, 4, 5, 6, 7]
   \<and> findNextAvailableSlot (Some (closedAfterToday 7)) fullMorning exampleDay ''10:00'' 30 7
     = None"
proof -
  have found: "findNextAvailableSlot (Some reopensOnDay7) fullMorning exampleDay ''10:00'' 30 10
     = Some \<lparr>slotDate = addDays exampleDay 7, slotTime = ''09:00''\<rparr>"
    by code_simp
  have midnight: "exampleDay mod msPerDay = 0"
    by code_simp
  have times: "list_all (\<lambda>a. wfTime (time a)) fullMorning"
    by code_simp
  have days: "list_all (\<lambda>off. wfDay (closedAfterToday 7) fullMorning (addDays exampleDay (int off))
                      \<and> closedOrFullyBooked (closedAfterToday 7) fullMorning
                           (addDays exampleDay (int off))) [0, 1, 2, 3, 4, 5, 6, 7]"
    by code_simp
  have all: "\<forall>off. off \<le> 7 \<longrightarrow> wfDay (closedAfterToday 7) fullMorning (addDays exampleDay (int off))
                      \<and> closedOrFullyBooked (closedAfterToday 7) fullMorning
                           (addDays exampleDay (int off))"
  proof (intro allI impI)
    fix off :: nat assume "off \<le> 7"
    then have "off \<in> set [0, 1, 2, 3, 4, 5, 6, 7]" by (simp; arith)
    with days show "wfDay (closedAfterToday 7) fullMorning (addDays exampleDay (int off))
                      \<and> closedOrFullyBooked (closedAfterToday 7) fullMorning
                           (addDays exampleDay (int off))"
      by (simp only: list_all_iff)
  qed
  have times': "\<forall>a\<in>set fullMorning. wfTime (time a)"
    using times by (simp only: list_all_iff)
  have req: "wfTime ''10:00''"
    by code_simp
  note bound = exhausted_window_returns_null
      [OF req, where sched = "Some reopensOnDay7" and appts = fullMorning and d = exampleDay
         and duration = 30 and maxDays = 10, THEN conjunct1,
       rule_format, OF found]
  note none = exhausted_window_returns_null
      [OF req, where sch = "closedAfterToday 7" and appts = fullMorning and d = exampleDay
         and duration = 30 and maxDays = 7, THEN conjunct2,
       rule_format, OF conjI[OF midnight conjI[OF times' all]]]
  from bound have "\<exists>off\<le>10. addDays exampleDay 7 = addDays exampleDay (int off)"
    by simp
  with req found midnight times days none show ?thesis
    by (intro conjI)
qed

text \<open>
  Claim C5, as stated, fails: with the offsets 0 to 6 closed or fully booked and the eighth
  day open, the search returns the first slot of the eighth day.
\<close>

theorem eighth_day_is_searched:
  "list_all (\<lambda>off. closedOrFullyBooked reopensOnDay7 fullMorning
                      (addDays exampleDay (int off))) [0, 1, 2, 3, 4, 5, 6]
   \<and> conflictExists (verifyAppointmentAvailability fullMorning exampleDay ''10:00'' 30)
   \<and> findNextAvailableSlot (Some reopensOnDay7) fullMorning exampleDay ''10:00'' 30 7
     = Some \<lparr>slotDate = addDays exampleDay 7, slotTime = ''09:00''\<rparr>"
  by code_simp

text \<open>
  Why the grid is asked for. The marks an appointment occupies are counted in steps of 30
  minutes from its own start, so an appointment that starts off the grid leaves the marks of
  the grid free: on a day open from 09:00 to 10:00, with appointments from 09:00 to 09:15 and
  from 09:15 to 10:00, every minute is taken and the search still returns 09:30.
\<close>

lemma off_grid_appointments_leave_marks_free:
  "fullyBooked openHour offGrid exampleDay
   \<and> \<not> onSlotGrid openHour offGrid exampleDay
   \<and> findNextAvailableSlot
         (Some \<lparr>regularHours = everyDay openHour, specialDays = [special 0 openHour]\<rparr>)
         offGrid exampleDay ''08:00'' 30 0
     = Some \<lparr>slotDate = exampleDay, slotTime = ''09:30''\<rparr>"
  by code_simp

text \<open>What \<open>parseHHmm\<close> accepts and what it refuses.\<close>

lemma parseHHmm_examples:
  "parseHHmm ''13:00'' = Some 780 \<and> parseHHmm ''13:00 '' = Some 780
   \<and> parseHHmm ''9:5'' = Some 545 \<and> parseHHmm ''24:00'' = None
   \<and> parseHHmm ''13:00h'' = None \<and> parseHHmm ''130:00'' = None
   \<and> parseHHmm [] = None"
  by code_simp

section \<open>Notification of a schedule change\<close>

lemma same_id_same_doc:
  assumes "distinct (map appId s)" "a \<in> set s" "b \<in> set s" "appId b = appId a"
  shows "b = a"
  using assms by (meson distinct_map inj_onD)

lemma notified_keeps:
  "appId (notified ue ok r now a) = appId a"
  "date (notified ue ok r now a) = date a"
  "time (notified ue ok r now a) = time a"
  "status a \<noteq> Cancelled \<Longrightarrow> status (notified ue ok r now a) \<noteq> Cancelled"
  by (simp_all add: notified_def marked_def)

lemma notifyOne_map:
  assumes d: "distinct (map appId s)" and a: "a \<in> set s"
    and v: "schemaValid now a" and nc: "status a \<noteq> Cancelled" and ns: "noSharedSlot s"
  shows "notifyOne ue ok r now s a
         = map (\<lambda>b. if appId b = appId a then notified ue ok r now b else b) s"
proof -
  have same: "\<And>b. b \<in> set s \<Longrightarrow> appId b = appId a \<Longrightarrow> b = a"
    using same_id_same_doc[OF d a] by blast
  show ?thesis
  proof (cases "truthy (ue (user a)) \<and> ok a")
    case False
    then have "notifyOne ue ok r now s a = s"
      by (auto simp: notifyOne_def)
    moreover have "map (\<lambda>b. if appId b = appId a then notified ue ok r now b else b) s = s"
      using False same by (intro map_idI) (auto simp: notified_def)
    ultimately show ?thesis by simp
  next
    case True
    define m where "m = a\<lparr>status := NeedsRescheduling,
                notes' := notes' a @ [CHR 0x0A] @ ''Cancelado por el local: ''
                          @ orElse r ''Cambio de horario''\<rparr>"
    have valid: "schemaValid now m" using v by (simp add: schemaValid_def m_def)
    have nodup: "\<not> duplicateKey s m"
    proof
      assume "duplicateKey s m"
      then obtain b where b: "b \<in> set s" "appId b \<noteq> appId a" "status b \<noteq> Cancelled"
        "date b = date a" "time b = time a"
        by (auto simp: duplicateKey_def list_ex_iff inIndex_def indexKey_def m_def)
      with ns a nc show False
        unfolding noSharedSlot_def by (metis)
    qed
    have sv: "save now s m = Inr (upsert s (marked r now a), marked r now a)"
      using valid nodup by (simp add: save_def Let_def m_def marked_def)
    have ex: "list_ex (\<lambda>b. appId b = appId (marked r now a)) s"
      using a by (auto simp: list_ex_iff marked_def)
    have up: "upsert s (marked r now a)
              = map (\<lambda>b. if appId b = appId a then marked r now a else b) s"
      using ex by (simp add: upsert_def) (simp add: marked_def)
    have "notifyOne ue ok r now s a = map (\<lambda>b. if appId b = appId a then marked r now a else b) s"
      using True sv up by (simp add: notifyOne_def Let_def m_def)
    also have "\<dots> = map (\<lambda>b. if appId b = appId a then notified ue ok r now b else b) s"
      using True same by (intro map_cong) (auto simp: notified_def)
    finally show ?thesis .
  qed
qed

lemma noSharedSlot_map:
  assumes "noSharedSlot s" and "\<forall>b\<in>set s. P b \<longrightarrow> status b \<noteq> Cancelled"
  shows "noSharedSlot (map (\<lambda>b. if P b then notified ue ok r now b else b) s)"
  using assms unfolding noSharedSlot_def
  by (auto simp: notified_keeps)

lemma notify_fold:
  assumes "distinct (map appId s)" and "distinct (map appId as)" and "set as \<subseteq> set s"
    and "\<forall>a\<in>set as. schemaValid now a \<and> status a \<noteq> Cancelled" and "noSharedSlot s"
  shows "foldl (notifyOne ue ok r now) s as
         = map (\<lambda>b. if appId b \<in> appId ` set as then notified ue ok r now b else b) s"
  using assms
proof (induction as arbitrary: s)
  case Nil
  then show ?case by (simp add: map_idI)
next
  case (Cons a as)
  let ?N = "notified ue ok r now"
  let ?s1 = "map (\<lambda>b. if appId b = appId a then ?N b else b) s"
  have a: "a \<in> set s" using Cons.prems(3) by simp
  have va: "schemaValid now a" "status a \<noteq> Cancelled" using Cons.prems(4) by simp_all
  have step: "notifyOne ue ok r now s a = ?s1"
    by (rule notifyOne_map[OF Cons.prems(1) a va Cons.prems(5)])
  have ids: "map appId ?s1 = map appId s"
    by (simp add: notified_keeps comp_def if_distrib cong: if_cong)
  have d1: "distinct (map appId ?s1)" unfolding ids by (rule Cons.prems(1))
  have d2: "distinct (map appId as)" using Cons.prems(2) by simp
  have notin: "appId a \<notin> appId ` set as" using Cons.prems(2) by simp
  have sub: "set as \<subseteq> set ?s1"
  proof
    fix x assume x: "x \<in> set as"
    then have "x \<in> set s" "appId x \<noteq> appId a"
      using Cons.prems(3) notin by (auto simp: image_iff)
    then have "x = (\<lambda>b. if appId b = appId a then ?N b else b) x" and "x \<in> set s"
      by simp_all
    then have "x \<in> (\<lambda>b. if appId b = appId a then ?N b else b) ` set s"
      by (rule image_eqI)
    then show "x \<in> set ?s1" by (simp only: set_map)
  qed
  have v: "\<forall>a\<in>set as. schemaValid now a \<and> status a \<noteq> Cancelled" using Cons.prems(4) by simp
  have same: "\<And>b. b \<in> set s \<Longrightarrow> appId b = appId a \<Longrightarrow> b = a"
    using same_id_same_doc[OF Cons.prems(1) a] by blast
  have ns: "noSharedSlot ?s1"
    by (rule noSharedSlot_map[OF Cons.prems(5)]) (use same va in auto)
  have "foldl (notifyOne ue ok r now) s (a # as) = foldl (notifyOne ue ok r now) ?s1 as"
    using step by simp
  also have "\<dots> = map (\<lambda>b. if appId b \<in> appId ` set as then ?N b else b) ?s1"
    by (rule Cons.IH[OF d1 d2 sub v ns])
  also have "\<dots> = map (\<lambda>b. if appId b \<in> appId ` set (a # as) then ?N b else b) s"
    using notin by (simp add: notified_keeps)
  finally show ?case .
qed

lemma next_day_iff:
  "(startOfDay d \<le> x \<and> x < addDays (startOfDay d) 1) = sameCalendarDay x d"
proof -
  have "(x < addDays (startOfDay d) 1) = (x \<le> endOfDay d)"
    by (auto simp: addDays_def endOfDay_def)
  then show ?thesis using day_range_iff[of d x] by simp
qed

lemma set_affectedAppointments:
  "set (affectedAppointments store d)
   = {a \<in> set store. sameCalendarDay (date a) d \<and> status a \<noteq> Cancelled}"
proof -
  have "\<And>x P. (startOfDay d \<le> x \<and> x < addDays (startOfDay d) 1 \<and> P) = (sameCalendarDay x d \<and> P)"
    using next_day_iff[of d] by blast
  then show ?thesis
    by (simp add: affectedAppointments_def Let_def)
qed

lemma findById_distinct:
  assumes "distinct (map appId s)" and "a \<in> set s"
  shows "findById s (appId a) = Some a"
  using assms unfolding findById_def
  by (induction s) (auto simp: image_iff)

lemma findById_map:
  fixes F :: "appointment \<Rightarrow> appointment" and s :: "appointment list"
  assumes "distinct (map appId s)" and "a \<in> set s" and "\<And>b. appId (F b) = appId b"
  shows "findById (map F s) (appId a) = Some (F a)"
proof -
  have "find (\<lambda>b. appId b = appId a) (map F s) = map_option F (find (\<lambda>b. appId b = appId a) s)"
    using find_map_same[of "\<lambda>b. appId b = appId a" F s] assms(3) by simp
  with findById_distinct[OF assms(1,2)] show ?thesis
    by (simp add: findById_def)
qed

lemma notifyScheduleChange_map:
  assumes d: "distinct (map appId store)"
    and ns: "noSharedSlot store"
    and v: "\<forall>a\<in>set store. sameCalendarDay (date a) d \<and> status a \<noteq> Cancelled
                            \<longrightarrow> schemaValid now a"
  shows "notifyScheduleChange userEmail sendOk (Some d) reason now store
         = Inr (map (\<lambda>b. if sameCalendarDay (date b) d \<and> status b \<noteq> Cancelled
                          then notified userEmail sendOk reason now b else b) store,
                length (affectedAppointments store d))"
proof -
  let ?as = "affectedAppointments store d"
  let ?N = "notified userEmail sendOk reason now"
  let ?F = "\<lambda>b. if sameCalendarDay (date b) d \<and> status b \<noteq> Cancelled then ?N b else b"
  have das: "distinct (map appId ?as)"
    using d by (simp add: affectedAppointments_def Let_def distinct_map_filter)
  have sub: "set ?as \<subseteq> set store" by (auto simp: set_affectedAppointments)
  have val: "\<forall>a\<in>set ?as. schemaValid now a \<and> status a \<noteq> Cancelled"
    using v by (auto simp: set_affectedAppointments)
  have fold: "foldl (notifyOne userEmail sendOk reason now) store ?as
              = map (\<lambda>b. if appId b \<in> appId ` set ?as then ?N b else b) store"
    by (rule notify_fold[OF d das sub val ns])
  have mem: "\<And>b. b \<in> set store \<Longrightarrow>
               (appId b \<in> appId ` set ?as) = (sameCalendarDay (date b) d \<and> status b \<noteq> Cancelled)"
  proof -
    fix b assume b: "b \<in> set store"
    have "(appId b \<in> appId ` set ?as) = (b \<in> set ?as)"
    proof
      assume "appId b \<in> appId ` set ?as"
      then obtain c where c: "c \<in> set ?as" "appId c = appId b" by auto
      with sub have "c \<in> set store" by auto
      from same_id_same_doc[OF d b this c(2)] c(1) show "b \<in> set ?as" by simp
    qed simp
    with b show "(appId b \<in> appId ` set ?as)
                 = (sameCalendarDay (date b) d \<and> status b \<noteq> Cancelled)"
      by (simp add: set_affectedAppointments)
  qed
  have eq: "map (\<lambda>b. if appId b \<in> appId ` set ?as then ?N b else b) store = map ?F store"
    by (rule map_cong[OF refl]) (simp add: mem)
  show ?thesis
  proof (cases "?as = []")
    case True
    then have "\<And>b. b \<in> set store \<Longrightarrow> \<not> (sameCalendarDay (date b) d \<and> status b \<noteq> Cancelled)"
      using set_affectedAppointments[of store d] by auto
    then have "map ?F store = store" by (intro map_idI) auto
    with True show ?thesis by (simp add: notifyScheduleChange_def Let_def)
  next
    case False
    with fold eq show ?thesis by (simp add: notifyScheduleChange_def Let_def)
  qed
qed

text \<open>
  Claim C8, as the code has it. Over documents with distinct identifiers that pass the
  validators of the schema, no two of which share a date and time unless cancelled,
  \<open>notifyScheduleChange\<close> succeeds for a given date and neither adds nor removes an
  appointment. An appointment of that date that is neither cancelled nor completed, whose
  user has an address and whose message is dispatched, is marked \<open>needsRescheduling\<close>, with
  the reason appended to its notes (and \<open>version\<close> and \<open>updatedAt\<close> maintained). Every
  appointment of another date, every cancelled appointment, and every appointment whose user
  has no address or whose message fails, whatever its status, is unchanged: a message that
  fails leaves its own appointment as it was and no other.
\<close>

theorem notify_marks_notified_appointments:
  assumes "distinct (map appId store)"
    and "noSharedSlot store"
    and "\<forall>a\<in>set store. sameCalendarDay (date a) d \<and> status a \<noteq> Cancelled
                          \<longrightarrow> schemaValid now a"
  shows "\<exists>store' n.
           notifyScheduleChange userEmail sendOk (Some d) reason now store = Inr (store', n)
           \<and> map appId store' = map appId store
           \<and> (\<forall>a\<in>set store.
                 (sameCalendarDay (date a) d \<and> status a \<noteq> Cancelled \<and> status a \<noteq> Completed
                  \<and> truthy (userEmail (user a)) \<and> sendOk a
                  \<longrightarrow> findById store' (appId a) = Some (marked reason now a))
               \<and> (\<not> (sameCalendarDay (date a) d \<and> status a \<noteq> Cancelled
                       \<and> truthy (userEmail (user a)) \<and> sendOk a)
                  \<longrightarrow> findById store' (appId a) = Some a))"
proof -
  let ?F = "\<lambda>b. if sameCalendarDay (date b) d \<and> status b \<noteq> Cancelled
                 then notified userEmail sendOk reason now b else b"
  have F: "\<And>b. appId (?F b) = appId b" by (simp add: notified_keeps)
  have ids: "map appId (map ?F store) = map appId store"
    by (simp add: comp_def notified_keeps)
  have each: "\<forall>a\<in>set store.
                 (sameCalendarDay (date a) d \<and> status a \<noteq> Cancelled \<and> status a \<noteq> Completed
                  \<and> truthy (userEmail (user a)) \<and> sendOk a
                  \<longrightarrow> findById (map ?F store) (appId a) = Some (marked reason now a))
               \<and> (\<not> (sameCalendarDay (date a) d \<and> status a \<noteq> Cancelled
                       \<and> truthy (userEmail (user a)) \<and> sendOk a)
                  \<longrightarrow> findById (map ?F store) (appId a) = Some a)"
  proof
    fix a assume a: "a \<in> set store"
    have "findById (map ?F store) (appId a) = Some (?F a)"
      by (rule findById_map[OF assms(1) a F])
    then show "(sameCalendarDay (date a) d \<and> status a \<noteq> Cancelled \<and> status a \<noteq> Completed
                  \<and> truthy (userEmail (user a)) \<and> sendOk a
                  \<longrightarrow> findById (map ?F store) (appId a) = Some (marked reason now a))
               \<and> (\<not> (sameCalendarDay (date a) d \<and> status a \<noteq> Cancelled
                       \<and> truthy (userEmail (user a)) \<and> sendOk a)
                  \<longrightarrow> findById (map ?F store) (appId a) = Some a)"
      by (simp add: notified_def)
  qed
  have run: "notifyScheduleChange userEmail sendOk (Some d) reason now store
             = Inr (map ?F store, length (affectedAppointments store d))"
    by (rule notifyScheduleChange_map[OF assms])
  show ?thesis
    by (intro exI conjI) (rule run, rule ids, rule each)
qed

text \<open>
  Two appointments on the day: the message about the first is dispatched, the one about the
  second fails.
\<close>

theorem notify_marks_notified_appointments_witness:
  "distinct (map appId [exampleAppointment ''a1'' ''u1'' ''10:00'' 60 Pending,
                        exampleAppointment ''a2'' ''u2'' ''11:00'' 30 Confirmed])
   \<and> noSharedSlot [exampleAppointment ''a1'' ''u1'' ''10:00'' 60 Pending,
                    exampleAppointment ''a2'' ''u2'' ''11:00'' 30 Confirmed]
   \<and> list_all (schemaValid exampleNow)
        [exampleAppointment ''a1'' ''u1'' ''10:00'' 60 Pending,
         exampleAppointment ''a2'' ''u2'' ''11:00'' 30 Confirmed]
   \<and> (\<exists>store' n.
         notifyScheduleChange (\<lambda>u. Some ''client@example.org'') (\<lambda>a. appId a = ''a1'')
           (Some exampleDay) None exampleNow
           [exampleAppointment ''a1'' ''u1'' ''10:00'' 60 Pending,
            exampleAppointment ''a2'' ''u2'' ''11:00'' 30 Confirmed] = Inr (store', n)
         \<and> map appId store' = [''a1'', ''a2'']
         \<and> findById store' ''a1''
             = Some (marked None exampleNow (exampleAppointment ''a1'' ''u1'' ''10:00'' 60 Pending))
         \<and> findById store' ''a2'' = Some (exampleAppointment ''a2'' ''u2'' ''11:00'' 30 Confirmed))"
proof -
  let ?a1 = "exampleAppointment ''a1'' ''u1'' ''10:00'' 60 Pending"
  let ?a2 = "exampleAppointment ''a2'' ''u2'' ''11:00'' 30 Confirmed"
  let ?ue = "\<lambda>u::string. Some ''client@example.org''"
  let ?ok = "\<lambda>a::appointment. appId a = ''a1''"
  have h1: "distinct (map appId [?a1, ?a2])" by code_simp
  have h2: "noSharedSlot [?a1, ?a2]" by code_simp
  have h3': "list_all (schemaValid exampleNow) [?a1, ?a2]" by code_simp
  then have h3: "\<forall>a\<in>set [?a1, ?a2]. sameCalendarDay (date a) exampleDay \<and> status a \<noteq> Cancelled
                   \<longrightarrow> schemaValid exampleNow a"
    by (simp only: list_all_iff) blast
  note t = notify_marks_notified_appointments[OF h1 h2 h3, of ?ue ?ok None]
  then obtain store' n where
    run: "notifyScheduleChange ?ue ?ok (Some exampleDay) None exampleNow [?a1, ?a2] = Inr (store', n)"
    and ids: "map appId store' = map appId [?a1, ?a2]"
    and each: "\<forall>a\<in>set [?a1, ?a2].
                 (sameCalendarDay (date a) exampleDay \<and> status a \<noteq> Cancelled
                  \<and> status a \<noteq> Completed \<and> truthy (?ue (user a)) \<and> ?ok a
                  \<longrightarrow> findById store' (appId a) = Some (marked None exampleNow a))
               \<and> (\<not> (sameCalendarDay (date a) exampleDay \<and> status a \<noteq> Cancelled
                       \<and> truthy (?ue (user a)) \<and> ?ok a)
                  \<longrightarrow> findById store' (appId a) = Some a)"
    by (elim exE conjE)
  have i1: "appId ?a1 = ''a1''" by code_simp
  have k1: "sameCalendarDay (date ?a1) exampleDay \<and> status ?a1 \<noteq> Cancelled
       \<and> status ?a1 \<noteq> Completed \<and> truthy (?ue (user ?a1)) \<and> ?ok ?a1"
    by code_simp
  have i2: "appId ?a2 = ''a2''" by code_simp
  have k2: "\<not> ?ok ?a2" by code_simp
  have l2: "\<not> (sameCalendarDay (date ?a2) exampleDay \<and> status ?a2 \<noteq> Cancelled
                       \<and> truthy (?ue (user ?a2)) \<and> ?ok ?a2)"
    using k2 by (simp only: simp_thms)
  have i12: "map appId [?a1, ?a2] = [''a1'', ''a2'']" by code_simp
  have m1: "?a1 \<in> set [?a1, ?a2]" by (rule list.set_intros(1))
  have m2: "?a2 \<in> set [?a1, ?a2]" by (rule list.set_intros(2), rule list.set_intros(1))
  from bspec[OF each m1, THEN conjunct1] k1
  have "findById store' (appId ?a1) = Some (marked None exampleNow ?a1)"
    by (rule mp)
  then have f1: "findById store' ''a1'' = Some (marked None exampleNow ?a1)"
    by (simp only: i1)
  from bspec[OF each m2, THEN conjunct2] l2
  have "findById store' (appId ?a2) = Some ?a2"
    by (rule mp)
  then have f2: "findById store' ''a2'' = Some ?a2"
    by (simp only: i2)
  have f0: "map appId store' = [''a1'', ''a2'']"
    using ids by (simp only: i12)
  have "\<exists>store' n. notifyScheduleChange ?ue ?ok (Some exampleDay) None exampleNow [?a1, ?a2]
                      = Inr (store', n)
          \<and> map appId store' = [''a1'', ''a2'']
          \<and> findById store' ''a1'' = Some (marked None exampleNow ?a1)
          \<and> findById store' ''a2'' = Some ?a2"
    by (intro exI conjI) (rule run, rule f0, rule f1, rule f2)
  then show ?thesis
    by (intro conjI h1 h2 h3')
qed

text \<open>
  Claim C8, as stated, fails. The notified appointment is marked \<open>needsRescheduling\<close>, not
  cancelled, and has no cancellation reason; the appointment whose message fails keeps its
  status; both are counted as notified.
\<close>

theorem notify_marks_instead_of_cancelling:
  "notifyScheduleChange (\<lambda>u. Some ''client@example.org'') (\<lambda>a. appId a = ''a1'')
     (Some exampleDay) None exampleNow
     [exampleAppointment ''a1'' ''u1'' ''10:00'' 60 Pending,
      exampleAppointment ''a2'' ''u2'' ''11:00'' 30 Confirmed]
   = Inr ([marked None exampleNow (exampleAppointment ''a1'' ''u1'' ''10:00'' 60 Pending),
           exampleAppointment ''a2'' ''u2'' ''11:00'' 30 Confirmed], 2)
   \<and> status (marked None exampleNow (exampleAppointment ''a1'' ''u1'' ''10:00'' 60 Pending))
     = NeedsRescheduling
   \<and> cancellationReason
       (marked None exampleNow (exampleAppointment ''a1'' ''u1'' ''10:00'' 60 Pending)) = None
   \<and> status (exampleAppointment ''a2'' ''u2'' ''11:00'' 30 Confirmed) = Confirmed"
  by code_simp

text \<open>The query also selects a completed appointment, which is then marked like the others.\<close>

lemma notify_marks_completed_appointment:
  "notifyScheduleChange (\<lambda>u. Some ''client@example.org'') (\<lambda>a. True)
     (Some exampleDay) None exampleNow [exampleAppointment ''a1'' ''u1'' ''10:00'' 60 Completed]
   = Inr ([marked None exampleNow (exampleAppointment ''a1'' ''u1'' ''10:00'' 60 Completed)], 1)"
  by code_simp

section \<open>What an operation leaves of the other appointments\<close>

lemma find_append_last:
  "find P (xs @ [x]) = (case find P xs of Some y \<Rightarrow> Some y | None \<Rightarrow> if P x then Some x else None)"
  by (induction xs) simp_all

lemma findById_upsert:
  "findById (upsert s x) i = (if appId x = i then Some x else findById s i)"
proof (cases "list_ex (\<lambda>b. appId b = appId x) s")
  case True
  let ?f = "\<lambda>b. if appId b = appId x then x else b"
  have "\<And>b. (appId (?f b) = i) = (appId b = i)" by simp
  then have m: "find (\<lambda>b. appId b = i) (map ?f s) = map_option ?f (find (\<lambda>b. appId b = i) s)"
    by (rule find_map_same[of "\<lambda>b. appId b = i" ?f s])
  show ?thesis
  proof (cases "appId x = i")
    case same: True
    from True obtain b where "b \<in> set s" "appId b = i"
      using same by (auto simp: list_ex_iff)
    then obtain c where c: "find (\<lambda>b. appId b = i) s = Some c"
      by (cases "find (\<lambda>b. appId b = i) s") (auto simp: find_None_iff)
    then have "appId c = i" by (auto simp: find_Some_iff)
    with True same m c show ?thesis by (simp add: upsert_def findById_def)
  next
    case other: False
    show ?thesis
    proof (cases "find (\<lambda>b. appId b = i) s")
      case None
      with True other m show ?thesis by (simp add: upsert_def findById_def)
    next
      case (Some c)
      then have "appId c = i" by (auto simp: find_Some_iff)
      with True other m Some show ?thesis by (simp add: upsert_def findById_def)
    qed
  qed
next
  case False
  then have none: "appId x = i \<Longrightarrow> find (\<lambda>b. appId b = i) s = None"
    by (auto simp: list_ex_iff find_None_iff)
  from False have "upsert s x = s @ [x]" by (simp add: upsert_def)
  then show ?thesis
    using none by (auto simp: findById_def find_append_last split: option.splits)
qed

lemma save_findById:
  assumes "save now s x = Inr (s', x')"
  shows "findById s' i
         = (if appId x = i then Some (x\<lparr>version := version x + 1, updatedAt := Some now\<rparr>)
            else findById s i)"
  using save_Inr[OF assms] by (simp add: findById_upsert)

lemma save_Inr_iff:
  "(save now s x = Inr (s2, sv))
   = (schemaValid now x \<and> \<not> duplicateKey s x
      \<and> sv = x\<lparr>version := version x + 1, updatedAt := Some now\<rparr> \<and> s2 = upsert s sv)"
  by (auto simp: save_def Let_def)

lemma foldl_other:
  fixes f :: "appointment list \<Rightarrow> appointment \<Rightarrow> appointment list"
  assumes "\<And>s x. appId x \<noteq> i \<Longrightarrow> findById (f s x) i = findById s i"
    and "\<forall>x\<in>set xs. appId x \<noteq> i"
  shows "findById (foldl f s xs) i = findById s i"
  using assms(2) by (induction xs arbitrary: s) (simp_all add: assms(1))

lemma filter_other:
  assumes "distinct (map appId store)" "a \<in> set store" "\<not> P a"
  shows "\<forall>x\<in>set (filter P store). appId x \<noteq> appId a"
proof
  fix x assume x: "x \<in> set (filter P store)"
  show "appId x \<noteq> appId a"
  proof
    assume "appId x = appId a"
    with assms(1,2) x have "x = a" by (intro same_id_same_doc[of store a x]) simp_all
    with x assms(3) show False by simp
  qed
qed

lemma notifyOne_other:
  assumes "appId x \<noteq> i"
  shows "findById (notifyOne ue ok r now s x) i = findById s i"
proof (cases "save now s (x\<lparr>status := NeedsRescheduling,
                notes' := notes' x @ [CHR 0x0A] @ ''Cancelado por el local: ''
                          @ orElse r ''Cambio de horario''\<rparr>)")
  case (Inl e)
  then show ?thesis by (simp add: notifyOne_def Let_def)
next
  case (Inr p)
  obtain s' saved where p: "p = (s', saved)" by (cases p)
  from save_findById[OF Inr[unfolded p], of i] assms
  have "findById s' i = findById s i" by simp
  with Inr p show ?thesis by (simp add: notifyOne_def Let_def)
qed

lemma remindOne_other:
  assumes "appId x \<noteq> i"
  shows "findById (remindOne ue ok now s x) i = findById s i"
proof (cases "save now s (x\<lparr>reminderSent := True, reminderSentAt := Some now\<rparr>)")
  case (Inl e)
  then show ?thesis by (simp add: remindOne_def)
next
  case (Inr p)
  obtain s' saved where p: "p = (s', saved)" by (cases p)
  from save_findById[OF Inr[unfolded p], of i] assms
  have "findById s' i = findById s i" by simp
  with Inr p show ?thesis by (simp add: remindOne_def)
qed

lemma cancelLoop_other:
  assumes "\<forall>x\<in>set xs. appId x \<noteq> i" "cancelLoop r now s xs = Inr s'"
  shows "findById s' i = findById s i"
  using assms
proof (induction xs arbitrary: s)
  case Nil
  then show ?case by simp
next
  case (Cons x xs)
  let ?c = "x\<lparr>status := Cancelled, cancellationReason := Some r, cancelledAt := Some now\<rparr>"
  show ?case
  proof (cases "save now s ?c")
    case (Inl e)
    with Cons.prems(2) show ?thesis by simp
  next
    case (Inr p)
    obtain s1 saved where p: "p = (s1, saved)" by (cases p)
    from save_findById[OF Inr[unfolded p], of i] Cons.prems(1)
    have one: "findById s1 i = findById s i" by simp
    from Cons.prems(2) Inr p have "cancelLoop r now s1 xs = Inr s'" by simp
    with Cons.IH[of s1] Cons.prems(1) have "findById s' i = findById s1 i" by simp
    with one show ?thesis by simp
  qed
qed

lemma markLoop_other:
  assumes "\<forall>x\<in>set xs. appId x \<noteq> i"
  shows "findById (markLoop now s xs) i = findById s i"
  using assms
  by (induction xs arbitrary: s) (simp_all add: findById_upsert updateToCompleted_def)

lemma handleAppointmentConflict_other:
  assumes "handleAppointmentConflict e store d t u svcs dur = Some (store', alt)"
    and "envNewId e \<noteq> i"
  shows "findById store' i = findById store i"
proof -
  from assms(1) obtain nextSlot where
    n: "findNextAvailableSlot (envSchedule e) store d t dur 7 = Some nextSlot"
    by (cases "findNextAvailableSlot (envSchedule e) store d t dur 7")
       (simp_all add: handleAppointmentConflict_def)
  define x where "x = \<lparr>appId = envNewId e, user = u, services = svcs,
                  date = slotDate nextSlot, time = slotTime nextSlot,
                  totalDuration = dur, status = Confirmed,
                  notes' = ''Cita reprogramada automaticamente por conflicto de horario'',
                  cancellationReason = None, cancelledAt = None,
                  reminderSent = False, reminderSentAt = None,
                  createdAt = envNow e, updatedAt = None, version = 0\<rparr>"
  have "\<exists>saved. save (envNow e) store x = Inr (store', saved)"
    using assms(1) n unfolding handleAppointmentConflict_def Let_def x_def
    by (cases "save (envNow e) store x") (auto simp: x_def split: if_splits)
  then obtain saved where "save (envNow e) store x = Inr (store', saved)" ..
  from save_findById[OF this, of i] assms(2) show ?thesis by (simp add: x_def)
qed

lemma createAppointment_other:
  assumes "createAppointment e reqUser svcsOpt d t notesOpt store = Inr (store', saved, r)"
    and "envNewId e \<noteq> i"
  shows "findById store' i = findById store i"
proof -
  have one: "\<And>x sv s2. save (envNow e) store x = Inr (s2, sv) \<Longrightarrow> appId x \<noteq> i
          \<Longrightarrow> findById s2 i = findById store i"
    using save_findById[of "envNow e" store _ _ _ i] by simp
  have two: "\<And>d t u svcs dur alt s2.
          handleAppointmentConflict e store d t u svcs dur = Some (s2, alt)
          \<Longrightarrow> findById s2 i = findById store i"
    using handleAppointmentConflict_other assms(2) by blast
  show ?thesis
    using assms unfolding createAppointment_def Let_def
    by (auto split: option.splits if_splits sum.splits jsError.splits dest: one two)
qed

lemma cancelAppointment_findById:
  assumes "cancelAppointment reqUser j reason now store = Inr (store', late)"
  shows "findById store' i
         = (if j = i
            then map_option
                   (\<lambda>b. b\<lparr>status := Cancelled,
                           cancellationReason := Some (orElse reason ''Cancelado por el usuario''),
                           cancelledAt := Some now,
                           version := version b + 1, updatedAt := Some now\<rparr>)
                   (findById store i)
            else findById store i)"
proof -
  from assms obtain b where b: "findById store j = Some b"
    by (cases "findById store j") (simp_all add: cancelAppointment_def)
  define c where "c = b\<lparr>status := Cancelled,
                         cancellationReason := Some (orElse reason ''Cancelado por el usuario''),
                         cancelledAt := Some now\<rparr>"
  have "\<exists>saved. save now store c = Inr (store', saved)"
    using assms b unfolding cancelAppointment_def Let_def c_def
    by (cases "save now store c") (auto simp: c_def split: if_splits)
  then obtain saved where "save now store c = Inr (store', saved)" ..
  from save_findById[OF this, of i] findById_appId[OF b] b show ?thesis
    by (auto simp: c_def)
qed

lemma rescheduleAppointment_cancelled:
  assumes "findById store i = Some a" and "status a = Cancelled"
  shows "\<exists>err. rescheduleAppointment e reqUser i dateOpt timeOpt svcsOpt store = Inl err"
  using assms by (simp add: rescheduleAppointment_def)

lemma rescheduleAppointment_other:
  assumes "rescheduleAppointment e reqUser j dateOpt timeOpt svcsOpt store = Inr (store', saved, r)"
    and "j \<noteq> i" and "envNewId e \<noteq> i"
  shows "findById store' i = findById store i"
proof -
  from assms(1) obtain b where b: "findById store j = Some b"
    by (cases "findById store j") (simp_all add: rescheduleAppointment_def)
  have idb: "appId b = j" using findById_appId[OF b] by simp
  have two: "\<And>d t u svcs dur alt s1.
          handleAppointmentConflict e store d t u svcs dur = Some (s1, alt)
          \<Longrightarrow> findById s1 i = findById store i"
    using handleAppointmentConflict_other assms(3) by blast
  show ?thesis
    using assms b idb unfolding rescheduleAppointment_def Let_def
    by (auto simp: save_Inr_iff findById_upsert
             split: option.splits if_splits sum.splits jsError.splits)
       (erule two)+
qed

lemma completeAppointment_findById:
  assumes "completeAppointment reqUser j now store = Inr store'"
  shows "findById store' i
         = (if j = i then map_option (updateToCompleted now) (findById store i)
            else findById store i)"
proof -
  from assms obtain b where b: "findById store j = Some b"
    by (cases "findById store j") (simp_all add: completeAppointment_def split: if_splits)
  from assms b have "store' = upsert store (updateToCompleted now b)"
    by (simp add: completeAppointment_def split: if_splits)
  with findById_appId[OF b] b show ?thesis
    by (auto simp: findById_upsert updateToCompleted_def)
qed

lemma toggleAppointmentReminder_findById:
  assumes "toggleAppointmentReminder reqUser j enabled now store = Inr store'"
  shows "findById store' i
         = (if j = i
            then map_option
                   (\<lambda>b. b\<lparr>reminderSent := \<not> enabled,
                           reminderSentAt := (if \<not> enabled then Some now else None),
                           version := version b + 1, updatedAt := Some now\<rparr>)
                   (findById store i)
            else findById store i)"
proof -
  from assms obtain b where b: "findById store j = Some b"
    by (cases "findById store j") (simp_all add: toggleAppointmentReminder_def)
  define c where "c = b\<lparr>reminderSent := \<not> enabled,
                         reminderSentAt := (if \<not> enabled then Some now else None)\<rparr>"
  have "\<exists>saved. save now store c = Inr (store', saved)"
    using assms b unfolding toggleAppointmentReminder_def c_def
    by (cases "save now store c") (auto simp: c_def split: if_splits)
  then obtain saved where "save now store c = Inr (store', saved)" ..
  from save_findById[OF this, of i] findById_appId[OF b] b show ?thesis
    by (auto simp: c_def)
qed

lemma sendManualReminder_findById:
  assumes "sendManualReminder ue ok reqUser j now store = Inr store'"
  shows "findById store' i
         = (if j = i
            then map_option
                   (\<lambda>b. b\<lparr>reminderSent := True, reminderSentAt := Some now,
                           version := version b + 1, updatedAt := Some now\<rparr>)
                   (findById store i)
            else findById store i)"
proof -
  from assms obtain b where b: "findById store j = Some b"
    by (cases "findById store j") (simp_all add: sendManualReminder_def split: if_splits)
  define c where "c = b\<lparr>reminderSent := True, reminderSentAt := Some now\<rparr>"
  have "\<exists>saved. save now store c = Inr (store', saved)"
    using assms b unfolding sendManualReminder_def c_def
    by (cases "save now store c") (auto simp: c_def split: if_splits)
  then obtain saved where "save now store c = Inr (store', saved)" ..
  from save_findById[OF this, of i] findById_appId[OF b] b show ?thesis
    by (auto simp: c_def)
qed


section \<open>Terminal states\<close>

lemma storeAfter_terminal:
  assumes d: "distinct (map appId store)"
    and fresh: "envNewId e \<notin> set (map appId store)"
    and a: "a \<in> set store"
    and st: "status a = Cancelled \<or> status a = Completed"
    and g: "\<not> unguarded a op"
  shows "\<exists>a'. findById (storeAfter e sendOk op store) (appId a) = Some a' \<and> sameBooking a a'
           \<and> (status a' = status a
                \<or> (status a = Cancelled \<and> completes op a \<and> status a' = Completed))"
proof -
  let ?i = "appId a"
  let ?R = "\<lambda>a'. sameBooking a a'
           \<and> (status a' = status a
                \<or> (status a = Cancelled \<and> completes op a \<and> status a' = Completed))"
  have fa: "findById store ?i = Some a" by (rule findById_distinct[OF d a])
  have new: "envNewId e \<noteq> ?i" using fresh a by auto
  have Ra: "?R a" by (simp add: sameBooking_def)
  have same: "\<And>s. findById s ?i = findById store ?i
                \<Longrightarrow> \<exists>a'. findById s ?i = Some a' \<and> ?R a'"
    using fa Ra by simp
  show ?thesis
  proof (cases op)
    case (CreateAppointment reqUser svcsOpt dt t notesOpt)
    show ?thesis
    proof (cases "createAppointment e reqUser svcsOpt dt t notesOpt store")
      case (Inl err)
      with CreateAppointment have "storeAfter e sendOk op store = store"
        by (simp add: storeAfter_def)
      then show ?thesis using same by simp
    next
      case (Inr p)
      obtain s' saved r where p: "p = (s', saved, r)" by (cases p)
      from Inr p CreateAppointment have "storeAfter e sendOk op store = s'"
        by (simp add: storeAfter_def)
      moreover have "findById s' ?i = findById store ?i"
        using createAppointment_other[OF Inr[unfolded p] new] .
      ultimately show ?thesis using same by simp
    qed
  next
    case (CancelAppointment reqUser j reason)
    show ?thesis
    proof (cases "cancelAppointment reqUser j reason (envNow e) store")
      case (Inl err)
      with CancelAppointment have "storeAfter e sendOk op store = store"
        by (simp add: storeAfter_def)
      then show ?thesis using same by simp
    next
      case (Inr p)
      obtain s' late where p: "p = (s', late)" by (cases p)
      from Inr p CancelAppointment have sa: "storeAfter e sendOk op store = s'"
        by (simp add: storeAfter_def)
      note f = cancelAppointment_findById[OF Inr[unfolded p], of ?i]
      show ?thesis
      proof (cases "j = ?i")
        case False
        with f have "findById s' ?i = findById store ?i" by simp
        with sa same show ?thesis by simp
      next
        case True
        with g CancelAppointment st have c: "status a = Cancelled"
          by (auto simp: unguarded_def)
        from True f fa have "findById s' ?i
            = Some (a\<lparr>status := Cancelled,
                      cancellationReason := Some (orElse reason ''Cancelado por el usuario''),
                      cancelledAt := Some (envNow e),
                      version := version a + 1, updatedAt := Some (envNow e)\<rparr>)"
          by simp
        with sa c show ?thesis by (simp add: sameBooking_def)
      qed
    qed
  next
    case (RescheduleAppointment reqUser j dateOpt timeOpt svcsOpt)
    show ?thesis
    proof (cases "rescheduleAppointment e reqUser j dateOpt timeOpt svcsOpt store")
      case (Inl err)
      with RescheduleAppointment have "storeAfter e sendOk op store = store"
        by (simp add: storeAfter_def)
      then show ?thesis using same by simp
    next
      case (Inr p)
      obtain s' saved r where p: "p = (s', saved, r)" by (cases p)
      from Inr p RescheduleAppointment have sa: "storeAfter e sendOk op store = s'"
        by (simp add: storeAfter_def)
      have "j \<noteq> ?i"
      proof
        assume j: "j = ?i"
        with g RescheduleAppointment st have "status a = Cancelled"
          by (auto simp: unguarded_def)
        from rescheduleAppointment_cancelled[OF fa this, of e reqUser dateOpt timeOpt svcsOpt]
        show False using Inr j by simp
      qed
      from rescheduleAppointment_other[OF Inr[unfolded p] this new]
      show ?thesis using sa same by simp
    qed
  next
    case (NotifyScheduleChange dateOpt reason)
    show ?thesis
    proof (cases dateOpt)
      case None
      with NotifyScheduleChange have "storeAfter e sendOk op store = store"
        by (simp add: storeAfter_def notifyScheduleChange_def)
      then show ?thesis using same by simp
    next
      case (Some dt)
      with g NotifyScheduleChange st
      have "\<not> (sameCalendarDay (date a) dt \<and> status a \<noteq> Cancelled)"
        by (auto simp: unguarded_def)
      then have "a \<notin> set (affectedAppointments store dt)"
        by (simp add: set_affectedAppointments)
      have other: "\<forall>x\<in>set (affectedAppointments store dt). appId x \<noteq> ?i"
      proof
        fix x assume x: "x \<in> set (affectedAppointments store dt)"
        then have xs: "x \<in> set store" by (simp add: set_affectedAppointments)
        show "appId x \<noteq> ?i"
        proof
          assume "appId x = ?i"
          from same_id_same_doc[OF d a xs this] x
          show False using \<open>a \<notin> set (affectedAppointments store dt)\<close> by simp
        qed
      qed
      have "findById (foldl (notifyOne (envUserEmail e) sendOk reason (envNow e)) store
                        (affectedAppointments store dt)) ?i = findById store ?i"
        by (rule foldl_other[OF notifyOne_other other])
      moreover have "storeAfter e sendOk op store
              = (if affectedAppointments store dt = [] then store
                 else foldl (notifyOne (envUserEmail e) sendOk reason (envNow e)) store
                        (affectedAppointments store dt))"
        using NotifyScheduleChange Some
        by (simp add: storeAfter_def notifyScheduleChange_def Let_def)
      ultimately have "findById (storeAfter e sendOk op store) ?i = findById store ?i"
        by simp
      then show ?thesis using same by simp
    qed
  next
    case (ProcessScheduleChange dt isClosed reason)
    let ?P = "\<lambda>a. startOfDay dt \<le> date a \<and> date a \<le> endOfDay dt
                   \<and> status a \<notin> set [Cancelled, Completed]"
    have other: "\<forall>x\<in>set (filter ?P store). appId x \<noteq> ?i"
      using st by (intro filter_other[OF d a]) auto
    show ?thesis
    proof (cases "processScheduleChange dt isClosed reason (envNow e) store")
      case (Inl err)
      with ProcessScheduleChange have "storeAfter e sendOk op store = store"
        by (simp add: storeAfter_def)
      then show ?thesis using same by simp
    next
      case (Inr s')
      with ProcessScheduleChange have sa: "storeAfter e sendOk op store = s'"
        by (simp add: storeAfter_def)
      from Inr have "s' = store
          \<or> cancelLoop (orElse reason ''Cambio en el horario de la peluqueria'') (envNow e)
               store (filter ?P store) = Inr s'"
        by (auto simp: processScheduleChange_def Let_def split: if_splits)
      then have "findById s' ?i = findById store ?i"
        using cancelLoop_other[OF other] by auto
      with sa same show ?thesis by simp
    qed
  next
    case (CompleteAppointment reqUser j)
    show ?thesis
    proof (cases "completeAppointment reqUser j (envNow e) store")
      case (Inl err)
      with CompleteAppointment have "storeAfter e sendOk op store = store"
        by (simp add: storeAfter_def)
      then show ?thesis using same by simp
    next
      case (Inr s')
      with CompleteAppointment have sa: "storeAfter e sendOk op store = s'"
        by (simp add: storeAfter_def)
      note f = completeAppointment_findById[OF Inr, of ?i]
      show ?thesis
      proof (cases "j = ?i")
        case False
        with f have "findById s' ?i = findById store ?i" by simp
        with sa same show ?thesis by simp
      next
        case True
        with f fa have "findById s' ?i = Some (updateToCompleted (envNow e) a)" by simp
        with sa st True CompleteAppointment show ?thesis
          by (auto simp: sameBooking_def updateToCompleted_def completes_def)
      qed
    qed
  next
    case MarkCompletedAppointments
    let ?P = "\<lambda>a. date a \<le> endOfDay (addDays (envNow e) (- 1))
                   \<and> status a \<in> set [Pending, Confirmed]"
    have other: "\<forall>x\<in>set (filter ?P store). appId x \<noteq> ?i"
      using st by (intro filter_other[OF d a]) auto
    have "storeAfter e sendOk op store = markLoop (envNow e) store (filter ?P store)"
      using MarkCompletedAppointments
      by (simp add: storeAfter_def markCompletedAppointments_def Let_def)
    with markLoop_other[OF other, of "envNow e" store] same show ?thesis by simp
  next
    case SendAppointmentReminders
    let ?P = "\<lambda>a. startOfDay (addDays (envNow e) 1) \<le> date a
                   \<and> date a \<le> endOfDay (addDays (envNow e) 1)
                   \<and> status a \<in> set [Pending, Confirmed] \<and> \<not> reminderSent a"
    have other: "\<forall>x\<in>set (filter ?P store). appId x \<noteq> ?i"
      using st by (intro filter_other[OF d a]) auto
    have "storeAfter e sendOk op store
          = foldl (remindOne (envUserEmail e) sendOk (envNow e)) store (filter ?P store)"
      using SendAppointmentReminders
      by (simp add: storeAfter_def sendAppointmentReminders_def Let_def)
    moreover have "findById (foldl (remindOne (envUserEmail e) sendOk (envNow e)) store
                               (filter ?P store)) ?i = findById store ?i"
      by (rule foldl_other[OF remindOne_other other])
    ultimately show ?thesis using same by simp
  next
    case (ToggleAppointmentReminder reqUser j enabled)
    show ?thesis
    proof (cases "toggleAppointmentReminder reqUser j enabled (envNow e) store")
      case (Inl err)
      with ToggleAppointmentReminder have "storeAfter e sendOk op store = store"
        by (simp add: storeAfter_def)
      then show ?thesis using same by simp
    next
      case (Inr s')
      with ToggleAppointmentReminder have sa: "storeAfter e sendOk op store = s'"
        by (simp add: storeAfter_def)
      note f = toggleAppointmentReminder_findById[OF Inr, of ?i]
      show ?thesis
      proof (cases "j = ?i")
        case False
        with f have "findById s' ?i = findById store ?i" by simp
        with sa same show ?thesis by simp
      next
        case True
        with f fa sa show ?thesis by (simp add: sameBooking_def)
      qed
    qed
  next
    case (SendManualReminder reqUser j)
    show ?thesis
    proof (cases "sendManualReminder (envUserEmail e) sendOk reqUser j (envNow e) store")
      case (Inl err)
      with SendManualReminder have "storeAfter e sendOk op store = store"
        by (simp add: storeAfter_def)
      then show ?thesis using same by simp
    next
      case (Inr s')
      with SendManualReminder have sa: "storeAfter e sendOk op store = s'"
        by (simp add: storeAfter_def)
      note f = sendManualReminder_findById[OF Inr, of ?i]
      show ?thesis
      proof (cases "j = ?i")
        case False
        with f have "findById s' ?i = findById store ?i" by simp
        with sa same show ?thesis by simp
      next
        case True
        with f fa sa show ?thesis by (simp add: sameBooking_def)
      qed
    qed
  qed
qed

text \<open>
  Claim C9, as the code has it. Ten operations write appointments. Over documents with
  distinct identifiers, a new document receiving a fresh one, take a stored appointment that
  is cancelled or completed, and an operation other than the three from which a completed
  appointment is not protected (a reschedule or a cancellation addressed to it, and the
  notification of a schedule change for its date). After the operation, whether it succeeded
  or answered with an error, the appointment is still stored with the date, time, services
  and total duration it had, and with the status it had, save that \<open>completeAppointment\<close>
  addressed to a cancelled appointment may have made it completed. Moreover a cancelled
  appointment is rejected by \<open>rescheduleAppointment\<close>, and a \<open>cancelAppointment\<close> that
  succeeds on it leaves it cancelled and writes the cancellation reason and time anew.
\<close>

theorem terminal_states_under_every_operation:
  assumes "distinct (map appId store)"
    and "envNewId e \<notin> set (map appId store)"
    and "a \<in> set store"
    and "status a = Cancelled \<or> status a = Completed"
    and "\<not> unguarded a op"
  shows "(\<exists>a'. findById (storeAfter e sendOk op store) (appId a) = Some a' \<and> sameBooking a a'
            \<and> (status a' = status a
                 \<or> (status a = Cancelled \<and> completes op a \<and> status a' = Completed)))
         \<and> (status a = Cancelled \<longrightarrow>
               (\<exists>err. rescheduleAppointment e reqUser (appId a) dateOpt timeOpt svcsOpt store
                       = Inl err)
               \<and> (\<forall>store' late.
                     cancelAppointment reqUser (appId a) reason now store = Inr (store', late)
                     \<longrightarrow> (\<exists>a'. findById store' (appId a) = Some a' \<and> sameBooking a a'
                              \<and> status a' = Cancelled
                              \<and> cancellationReason a'
                                  = Some (orElse reason ''Cancelado por el usuario'')
                              \<and> cancelledAt a' = Some now)))"
proof (intro conjI impI allI)
  show "\<exists>a'. findById (storeAfter e sendOk op store) (appId a) = Some a' \<and> sameBooking a a'
            \<and> (status a' = status a
                 \<or> (status a = Cancelled \<and> completes op a \<and> status a' = Completed))"
    by (rule storeAfter_terminal[OF assms])
next
  have fa: "findById store (appId a) = Some a"
    by (rule findById_distinct[OF assms(1,3)])
  {
    assume "status a = Cancelled"
    with fa show "\<exists>err. rescheduleAppointment e reqUser (appId a) dateOpt timeOpt svcsOpt store
                       = Inl err"
      by (rule rescheduleAppointment_cancelled)
  }
  {
    fix store' late
    assume "status a = Cancelled"
      and "cancelAppointment reqUser (appId a) reason now store = Inr (store', late)"
    from cancelAppointment_findById[OF this(2), of "appId a"] fa
    show "\<exists>a'. findById store' (appId a) = Some a' \<and> sameBooking a a'
                \<and> status a' = Cancelled
                \<and> cancellationReason a' = Some (orElse reason ''Cancelado por el usuario'')
                \<and> cancelledAt a' = Some now"
      by (simp add: sameBooking_def)
  }
qed

text \<open>
  A cancelled appointment: an administrator completes it, its owner tries to reschedule it,
  and its owner cancels it once more.
\<close>

theorem terminal_states_under_every_operation_witness:
  "distinct (map appId [exampleAppointment ''a1'' ''u1'' ''10:00'' 30 Cancelled])
   \<and> envNewId (exampleEnv \<lparr>regularHours = everyDay openMorning, specialDays = []\<rparr>)
       \<notin> set (map appId [exampleAppointment ''a1'' ''u1'' ''10:00'' 30 Cancelled])
   \<and> exampleAppointment ''a1'' ''u1'' ''10:00'' 30 Cancelled
       \<in> set [exampleAppointment ''a1'' ''u1'' ''10:00'' 30 Cancelled]
   \<and> status (exampleAppointment ''a1'' ''u1'' ''10:00'' 30 Cancelled) = Cancelled
   \<and> \<not> unguarded (exampleAppointment ''a1'' ''u1'' ''10:00'' 30 Cancelled)
         (CompleteAppointment (Some \<lparr>id' = ''u0'', role = ''admin''\<rparr>) ''a1'')
   \<and> (\<exists>a'. findById
               (storeAfter (exampleEnv \<lparr>regularHours = everyDay openMorning, specialDays = []\<rparr>)
                  (\<lambda>a. True) (CompleteAppointment (Some \<lparr>id' = ''u0'', role = ''admin''\<rparr>) ''a1'')
                  [exampleAppointment ''a1'' ''u1'' ''10:00'' 30 Cancelled]) ''a1'' = Some a'
             \<and> sameBooking (exampleAppointment ''a1'' ''u1'' ''10:00'' 30 Cancelled) a'
             \<and> status a' = Completed)
   \<and> (\<exists>err. rescheduleAppointment
                (exampleEnv \<lparr>regularHours = everyDay openMorning, specialDays = []\<rparr>)
                (Some \<lparr>id' = ''u1'', role = ''user''\<rparr>) ''a1'' None (Some ''11:00'') None
                [exampleAppointment ''a1'' ''u1'' ''10:00'' 30 Cancelled] = Inl err)
   \<and> (\<exists>a'. findById
               [(exampleAppointment ''a1'' ''u1'' ''10:00'' 30 Cancelled)
                  \<lparr>cancellationReason := Some ''Cancelado por el usuario'',
                   cancelledAt := Some exampleNow, updatedAt := Some exampleNow,
                   version := 1\<rparr>] ''a1'' = Some a'
             \<and> status a' = Cancelled \<and> time a' = ''10:00''
             \<and> cancelledAt a' = Some exampleNow)"
proof -
  let ?a = "exampleAppointment ''a1'' ''u1'' ''10:00'' 30 Cancelled"
  let ?e = "exampleEnv \<lparr>regularHours = everyDay openMorning, specialDays = []\<rparr>"
  let ?u = "Some \<lparr>id' = ''u1'', role = ''user''\<rparr>"
  let ?op = "CompleteAppointment (Some \<lparr>id' = ''u0'', role = ''admin''\<rparr>) ''a1''"
  let ?s' = "[?a\<lparr>cancellationReason := Some ''Cancelado por el usuario'',
                 cancelledAt := Some exampleNow, updatedAt := Some exampleNow, version := 1\<rparr>]"
  have h1: "distinct (map appId [?a])" by code_simp
  have h2: "envNewId ?e \<notin> set (map appId [?a])" by code_simp
  have h3: "?a \<in> set [?a]" by (rule list.set_intros(1))
  have h4: "status ?a = Cancelled" by code_simp
  have h4': "status ?a = Cancelled \<or> status ?a = Completed" using h4 by (rule disjI1)
  have h5: "\<not> unguarded ?a ?op" by code_simp
  have i: "appId ?a = ''a1''" by code_simp
  have run: "cancelAppointment ?u ''a1'' None exampleNow [?a] = Inr (?s', False)" by code_simp
  have done': "status (updateToCompleted exampleNow ?a) = Completed" by code_simp
  have after: "storeAfter ?e (\<lambda>a. True) ?op [?a] = [updateToCompleted exampleNow ?a]"
    by code_simp
  note t = terminal_states_under_every_operation
             [OF h1 h2 h3 h4' h5, of "\<lambda>a. True" ?u None "Some ''11:00''" None None exampleNow]
  from conjunct1[OF t] obtain a' where
    f: "findById (storeAfter ?e (\<lambda>a. True) ?op [?a]) (appId ?a) = Some a'"
    and b: "sameBooking ?a a'"
    by (elim exE conjE)
  have fnd: "findById [updateToCompleted exampleNow ?a] ''a1''
             = Some (updateToCompleted exampleNow ?a)"
    by code_simp
  from f have "findById [updateToCompleted exampleNow ?a] ''a1'' = Some a'"
    by (simp only: after i)
  with fnd have "a' = updateToCompleted exampleNow ?a"
    by (simp only: option.inject)
  with done' have s: "status a' = Completed" by (simp only:)
  from f have f': "findById (storeAfter ?e (\<lambda>a. True) ?op [?a]) ''a1'' = Some a'"
    by (simp only: i)
  have c1: "\<exists>a'. findById (storeAfter ?e (\<lambda>a. True) ?op [?a]) ''a1'' = Some a'
             \<and> sameBooking ?a a' \<and> status a' = Completed"
    by (intro exI conjI) (rule f', rule b, rule s)
  note t2 = conjunct2[OF t, THEN mp, OF h4]
  from conjunct1[OF t2]
  have r: "\<exists>err. rescheduleAppointment ?e ?u ''a1'' None (Some ''11:00'') None [?a] = Inl err"
    by (simp only: i)
  from conjunct2[OF t2] run
  have "\<exists>a'. findById ?s' (appId ?a) = Some a' \<and> sameBooking ?a a'
                \<and> status a' = Cancelled
                \<and> cancellationReason a' = Some (orElse None ''Cancelado por el usuario'')
                \<and> cancelledAt a' = Some exampleNow"
    unfolding i by blast
  then obtain a'' where
    g: "findById ?s' (appId ?a) = Some a''" "sameBooking ?a a''" "status a'' = Cancelled"
       "cancelledAt a'' = Some exampleNow"
    by (elim exE conjE)
  have tm: "time ?a = ''10:00''" by code_simp
  from g(2) have "time a'' = time ?a" by (simp only: sameBooking_def)
  then have g5: "time a'' = ''10:00''" by (simp only: tm)
  from g(1) have g1: "findById ?s' ''a1'' = Some a''" by (simp only: i)
  have c: "\<exists>a'. findById ?s' ''a1'' = Some a' \<and> status a' = Cancelled \<and> time a' = ''10:00''
             \<and> cancelledAt a' = Some exampleNow"
    by (intro exI conjI) (rule g1, rule g(3), rule g5, rule g(4))
  show ?thesis
    by (intro conjI h1 h2 h3 h4 h5 c1 r c)
qed

text \<open>
  Claim C9, as stated, fails. A completed appointment is rescheduled from 10:00 to 11:00 by
  its owner, cancelled by its owner, and marked \<open>needsRescheduling\<close> by the notification of a
  schedule change. A cancelled appointment is made completed by an administrator, and
  cancelling it once more overwrites its cancellation reason and time.
\<close>

theorem terminal_states_are_changed:
  "rescheduleAppointment
     (exampleEnv \<lparr>regularHours = everyDay openMorning, specialDays = []\<rparr>)
     (Some \<lparr>id' = ''u1'', role = ''user''\<rparr>) ''a1'' None (Some ''11:00'') None
     [exampleAppointment ''a1'' ''u1'' ''10:00'' 30 Completed]
   = Inr ([(exampleAppointment ''a1'' ''u1'' ''11:00'' 30 Completed)
             \<lparr>updatedAt := Some exampleNow, version := 1\<rparr>],
          (exampleAppointment ''a1'' ''u1'' ''11:00'' 30 Completed)
             \<lparr>updatedAt := Some exampleNow, version := 1\<rparr>,
          False)
   \<and> cancelAppointment (Some \<lparr>id' = ''u1'', role = ''user''\<rparr>) ''a1'' None exampleNow
        [exampleAppointment ''a1'' ''u1'' ''10:00'' 30 Completed]
     = Inr ([(exampleAppointment ''a1'' ''u1'' ''10:00'' 30 Cancelled)
               \<lparr>cancellationReason := Some ''Cancelado por el usuario'',
                cancelledAt := Some exampleNow, updatedAt := Some exampleNow, version := 1\<rparr>],
            False)
   \<and> storeAfter (exampleEnv \<lparr>regularHours = everyDay openMorning, specialDays = []\<rparr>)
        (\<lambda>a. True) (NotifyScheduleChange (Some exampleDay) None)
        [exampleAppointment ''a1'' ''u1'' ''10:00'' 30 Completed]
     = [marked None exampleNow (exampleAppointment ''a1'' ''u1'' ''10:00'' 30 Completed)]
   \<and> status (marked None exampleNow (exampleAppointment ''a1'' ''u1'' ''10:00'' 30 Completed))
     = NeedsRescheduling
   \<and> completeAppointment (Some \<lparr>id' = ''u0'', role = ''admin''\<rparr>) ''a1'' exampleNow
        [exampleAppointment ''a1'' ''u1'' ''10:00'' 30 Cancelled]
     = Inr [(exampleAppointment ''a1'' ''u1'' ''10:00'' 30 Completed)
              \<lparr>updatedAt := Some exampleNow\<rparr>]
   \<and> cancelAppointment (Some \<lparr>id' = ''u1'', role = ''user''\<rparr>) ''a1'' (Some ''otra vez'')
        exampleNow
        [(exampleAppointment ''a1'' ''u1'' ''10:00'' 30 Cancelled)
           \<lparr>cancellationReason := Some ''primera'', cancelledAt := Some 1717700000000\<rparr>]
     = Inr ([(exampleAppointment ''a1'' ''u1'' ''10:00'' 30 Cancelled)
               \<lparr>cancellationReason := Some ''otra vez'', cancelledAt := Some exampleNow,
                updatedAt := Some exampleNow, version := 1\<rparr>],
            False)"
  by code_simp

end
